theory Spec2Isabelle
  imports Main "HOL-Library.Word"
begin

text \<open>
  A model of \<^verbatim>\<open>src/prouter.ts\<close>: the helpers of \<^verbatim>\<open>RouteHelper\<close> (query parsing, the
  tokenizer of route strings and the compiler to regular expressions), the static state
  and methods of \<^verbatim>\<open>Router\<close>, and \<^verbatim>\<open>RouteGroup\<close>. Functions keep the names of the source,
  without the leading underscore of the private ones. A method that can throw returns a
  sum, with the exception on the left; a method that changes the router or the browser
  takes the state and returns it with its result, also when it throws.
\<close>

section \<open>JavaScript strings, values and exceptions\<close>

text \<open>
  A JavaScript string is a sequence of 16-bit code units. Literals of the source are
  written \<open>str ''...''\<close>; a backslash cannot occur in such a literal and is written
  \<open>bslash\<close>.
\<close>

type_synonym jschar = "16 word"
type_synonym jsstring = "jschar list"

definition ch :: "char \<Rightarrow> jschar" where
  "ch c = of_nat (of_char c)"

definition str :: "string \<Rightarrow> jsstring" where
  "str s = map ch s"

definition bslash :: jschar where
  "bslash = 0x5C"

text \<open>
  Exceptions are values. \<open>Error msg\<close> is \<^verbatim>\<open>new Error(msg)\<close>, the only exception the
  router constructs itself; \<open>TypeError\<close>, \<open>URIError\<close> and \<open>SyntaxError\<close> are raised by the
  language (a property read on \<^verbatim>\<open>undefined\<close> or \<^verbatim>\<open>null\<close>, a call of a non-function,
  the \<^verbatim>\<open>URL\<close> constructor, \<^verbatim>\<open>decodeURIComponent\<close>, \<^verbatim>\<open>new RegExp\<close>); \<open>DOMException\<close>
  is raised by \<^verbatim>\<open>history.pushState\<close>; \<open>Thrown n\<close> is any other value a callback throws.
\<close>

datatype error = Error jsstring | TypeError | URIError | SyntaxError | DOMException | Thrown nat

text \<open>A variable that may hold \<^verbatim>\<open>undefined\<close> or \<^verbatim>\<open>null\<close> instead of a value.\<close>

datatype 'a nullable = Undefined | Null | Defined 'a

text \<open>Reading an array out of range yields \<^verbatim>\<open>undefined\<close>.\<close>

fun index :: "'a list \<Rightarrow> nat \<Rightarrow> 'a option" where
  "index [] i = None"
| "index (x # xs) 0 = Some x"
| "index (x # xs) (Suc i) = index xs i"

text \<open>
  A plain object used as a dictionary from strings to strings: an association list with
  one entry per key. Assignment to an existing key replaces its value. The key
  \<^verbatim>\<open>__proto__\<close> is the inherited accessor of \<^verbatim>\<open>Object.prototype\<close>: assigning a string
  to it creates no property. (Enumeration order of integer-like keys is not modelled.)
\<close>

type_synonym jsobject = "(jsstring \<times> jsstring) list"

fun update_property :: "jsstring \<Rightarrow> jsstring \<Rightarrow> jsobject \<Rightarrow> jsobject" where
  "update_property k v [] = [(k, v)]"
| "update_property k v ((k', v') # ps) =
     (if k = k' then (k, v) # ps else (k', v') # update_property k v ps)"

definition put_property :: "jsstring \<Rightarrow> jsstring \<Rightarrow> jsobject \<Rightarrow> jsobject" where
  "put_property k v obj = (if k = str ''__proto__'' then obj else update_property k v obj)"

subsection \<open>\<^verbatim>\<open>String.prototype.split\<close> with a one-character separator\<close>

fun js_split :: "jschar \<Rightarrow> jsstring \<Rightarrow> jsstring list" where
  "js_split sep [] = [[]]"
| "js_split sep (c # s) =
     (if c = sep then [] # js_split sep s
      else (case js_split sep s of
              [] \<Rightarrow> [[c]]
            | p # ps \<Rightarrow> (c # p) # ps))"

subsection \<open>\<^verbatim>\<open>decodeURIComponent\<close> and \<^verbatim>\<open>decodeURI\<close>\<close>

text \<open>
  The \<^verbatim>\<open>Decode\<close> operation of ECMA-262: a \<^verbatim>\<open>%\<close> must be followed by two hexadecimal
  digits; an octet with the high bit set starts a UTF-8 sequence of two to four such
  escapes, which must encode a Unicode code point (no overlong form, no surrogate, at
  most \<^verbatim>\<open>0x10FFFF\<close>). Every violation throws \<^verbatim>\<open>URIError\<close>. An escape that decodes to a
  character of the reserved set is left as it is.
\<close>

definition hexval :: "jschar \<Rightarrow> nat option" where
  "hexval c =
     (let n = unat c in
      if 48 \<le> n \<and> n \<le> 57 then Some (n - 48)
      else if 65 \<le> n \<and> n \<le> 70 then Some (n - 55)
      else if 97 \<le> n \<and> n \<le> 102 then Some (n - 87)
      else None)"

fun octet :: "jsstring \<Rightarrow> (nat \<times> jsstring) option" where
  "octet (p # h1 # h2 # rest) =
     (if p = ch CHR ''%'' then
        (case hexval h1 of
           None \<Rightarrow> None
         | Some a \<Rightarrow> (case hexval h2 of None \<Rightarrow> None | Some b \<Rightarrow> Some (16 * a + b, rest)))
      else None)"
| "octet _ = None"

fun continuation :: "nat \<Rightarrow> jsstring \<Rightarrow> (nat list \<times> jsstring) option" where
  "continuation 0 s = Some ([], s)"
| "continuation (Suc n) s =
     (case octet s of
        None \<Rightarrow> None
      | Some (b, rest) \<Rightarrow>
          if 128 \<le> b \<and> b < 192 then
            (case continuation n rest of
               None \<Rightarrow> None
             | Some (bs, rest') \<Rightarrow> Some (b # bs, rest'))
          else None)"

fun utf8_value :: "nat \<Rightarrow> nat list \<Rightarrow> nat option" where
  "utf8_value b [b1] =
     (let v = (b - 192) * 64 + (b1 - 128) in if 128 \<le> v then Some v else None)"
| "utf8_value b [b1, b2] =
     (let v = (b - 224) * 4096 + (b1 - 128) * 64 + (b2 - 128)
      in if 2048 \<le> v \<and> \<not> (55296 \<le> v \<and> v \<le> 57343) then Some v else None)"
| "utf8_value b [b1, b2, b3] =
     (let v = (b - 240) * 262144 + (b1 - 128) * 4096 + (b2 - 128) * 64 + (b3 - 128)
      in if 65536 \<le> v \<and> v \<le> 1114111 then Some v else None)"
| "utf8_value b _ = None"

definition code_units :: "nat \<Rightarrow> jsstring" where
  "code_units v =
     (if v < 65536 then [of_nat v]
      else [of_nat (55296 + (v - 65536) div 1024), of_nat (56320 + (v - 65536) mod 1024)])"

definition prepend :: "jsstring \<Rightarrow> error + jsstring \<Rightarrow> error + jsstring" where
  "prepend s r = (case r of Inl e \<Rightarrow> Inl e | Inr t \<Rightarrow> Inr (s @ t))"

lemma octet_shorter: "octet s = Some (b, r) \<Longrightarrow> length r < length s"
  by (induction s rule: octet.induct) (auto split: if_splits option.splits)

lemma continuation_shorter: "continuation n s = Some (bs, r) \<Longrightarrow> length r \<le> length s"
proof (induction n arbitrary: s bs r)
  case 0
  then show ?case by simp
next
  case (Suc n)
  from Suc.prems obtain b rest bs' where o: "octet s = Some (b, rest)"
    and c: "continuation n rest = Some (bs', r)"
    by (auto split: option.splits if_splits)
  from Suc.IH [OF c] octet_shorter [OF o] show ?case by simp
qed

function Decode :: "jsstring \<Rightarrow> jsstring \<Rightarrow> error + jsstring" where
  "Decode reservedSet [] = Inr []"
| "Decode reservedSet (c # s) =
     (if c \<noteq> ch CHR ''%'' then prepend [c] (Decode reservedSet s)
      else
        (case octet (c # s) of
           None \<Rightarrow> Inl URIError
         | Some (b, rest) \<Rightarrow>
             if b < 128 then
               (if of_nat b \<in> set reservedSet
                then prepend (take 3 (c # s)) (Decode reservedSet rest)
                else prepend [of_nat b] (Decode reservedSet rest))
             else if b < 192 \<or> 248 \<le> b then Inl URIError
             else
               (case continuation (if b < 224 then 1 else if b < 240 then 2 else 3) rest of
                  None \<Rightarrow> Inl URIError
                | Some (bs, rest') \<Rightarrow>
                    (case utf8_value b bs of
                       None \<Rightarrow> Inl URIError
                     | Some v \<Rightarrow>
                         if v < 65536 \<and> of_nat v \<in> set reservedSet
                         then prepend (take (length (c # s) - length rest') (c # s))
                                (Decode reservedSet rest')
                         else prepend (code_units v) (Decode reservedSet rest')))))"
  by pat_completeness auto
termination
proof (relation "measure (\<lambda>(rs, s). length s)", goal_cases)
  case 1
  show ?case by simp
next
  case (2 reservedSet c s)
  show ?case by simp
next
  case (3 reservedSet c s x2 b rest)
  then show ?case by (auto dest: octet_shorter)
next
  case (4 reservedSet c s x2 b rest)
  then show ?case by (auto dest: octet_shorter)
next
  case (5 reservedSet c s x2 b rest x2a bs rest' v)
  then have "length rest < length (c # s)" and "length rest' \<le> length rest"
    by (auto dest: octet_shorter continuation_shorter)
  then show ?case by simp
next
  case (6 reservedSet c s x2 b rest x2a bs rest' v)
  then have "length rest < length (c # s)" and "length rest' \<le> length rest"
    by (auto dest: octet_shorter continuation_shorter)
  then show ?case by simp
qed

text \<open>The argument is converted to a string first: \<^verbatim>\<open>undefined\<close> becomes \<^verbatim>\<open>"undefined"\<close>.\<close>

definition ToString :: "jsstring option \<Rightarrow> jsstring" where
  "ToString v = (case v of None \<Rightarrow> str ''undefined'' | Some s \<Rightarrow> s)"

definition decodeURIComponent :: "jsstring option \<Rightarrow> error + jsstring" where
  "decodeURIComponent v = Decode [] (ToString v)"

definition decodeURI :: "jsstring \<Rightarrow> error + jsstring" where
  "decodeURI s = Decode (str '';/?:@&=+$,#'') s"

section \<open>RouteHelper\<close>

subsection \<open>parseQuery\<close>

text \<open>
  \<^verbatim>\<open>searchParams[decodeURIComponent(pair[0])] = decodeURIComponent(pair[1])\<close> for every
  \<^verbatim>\<open>&\<close>-separated part: the key is decoded first, then the value; either may throw.
\<close>

fun parseQuery_loop :: "jsstring list \<Rightarrow> jsobject \<Rightarrow> error + jsobject" where
  "parseQuery_loop [] searchParams = Inr searchParams"
| "parseQuery_loop (p # paramsArr) searchParams =
     (let pair = js_split (ch CHR ''='') p in
      case decodeURIComponent (index pair 0) of
        Inl e \<Rightarrow> Inl e
      | Inr k \<Rightarrow>
          (case decodeURIComponent (index pair 1) of
             Inl e \<Rightarrow> Inl e
           | Inr v \<Rightarrow> parseQuery_loop paramsArr (put_property k v searchParams)))"

text \<open>The array \<^verbatim>\<open>paramsArr\<close>: the query without its leading \<^verbatim>\<open>?\<close>, split at \<^verbatim>\<open>&\<close>.\<close>

definition paramsArr :: "jsstring \<Rightarrow> jsstring list" where
  "paramsArr queryString =
     js_split (ch CHR ''&'')
       (case queryString of
          [] \<Rightarrow> queryString
        | c # rest \<Rightarrow> if c = ch CHR ''?'' then rest else queryString)"

definition parseQuery :: "jsstring \<Rightarrow> error + jsobject" where
  "parseQuery queryString = parseQuery_loop (paramsArr queryString) []"

subsection \<open>Escaping and slashes\<close>

text \<open>
  \<^verbatim>\<open>str.replace(/([.+*?=^!:${}()[\]|\/])/g, '\\$1')\<close> and
  \<^verbatim>\<open>group.replace(/([=!:$\/()])/g, '\\$1')\<close>: every listed character gets a backslash
  in front of it.
\<close>

definition escapeString :: "jsstring \<Rightarrow> jsstring" where
  "escapeString s =
     concat (map (\<lambda>c. if c \<in> set (str ''.+*?=^!:${}()[]|/'') then [bslash, c] else [c]) s)"

definition escapeGroup :: "jsstring \<Rightarrow> jsstring" where
  "escapeGroup grp =
     concat (map (\<lambda>c. if c \<in> set (str ''=!:$/()'') then [bslash, c] else [c]) grp)"

text \<open>
  \<^verbatim>\<open>path.replace(/^\/+|\/+$/, '')\<close>: the expression has no \<^verbatim>\<open>g\<close> flag, so only its
  first match is removed: the leading run of slashes if the path starts with one,
  otherwise the trailing run.
\<close>

definition clearSlashes :: "jsstring \<Rightarrow> jsstring" where
  "clearSlashes path =
     (case path of
        [] \<Rightarrow> []
      | c # _ \<Rightarrow>
          if c = ch CHR ''/'' then dropWhile (\<lambda>d. d = ch CHR ''/'') path
          else rev (dropWhile (\<lambda>d. d = ch CHR ''/'') (rev path)))"

subsection \<open>The expression \<^verbatim>\<open>PATH_STRIPPER\<close>\<close>

text \<open>
  \<^verbatim>\<open>(\\.)|([\/.])?(?:(?:\:(\w+)(?:\(((?:\\.|[^()])+)\))?|\(((?:\\.|[^()])+)\))([+*?])?|(\*))\<close>
  matched the way a backtracking engine does: alternatives left to right, greedy
  quantifiers first. \<open>sub_pattern acc s\<close> is \<^verbatim>\<open>(?:\\.|[^()])+\<close> followed by \<^verbatim>\<open>\)\<close>,
  where \<open>acc\<close> is the text the repetition has consumed so far: it tries one more
  escaped pair, then one more plain character, and only then the closing parenthesis.
\<close>

definition is_word :: "jschar \<Rightarrow> bool" where
  "is_word c =
     (let n = unat c
      in (48 \<le> n \<and> n \<le> 57) \<or> (65 \<le> n \<and> n \<le> 90) \<or> n = 95 \<or> (97 \<le> n \<and> n \<le> 122))"

definition is_line_terminator :: "jschar \<Rightarrow> bool" where
  "is_line_terminator c = (c = 0x0A \<or> c = 0x0D \<or> c = 0x2028 \<or> c = 0x2029)"

fun sub_pattern :: "jsstring \<Rightarrow> jsstring \<Rightarrow> (jsstring \<times> jsstring) option" where
  "sub_pattern acc [] = None"
| "sub_pattern acc (c # s) =
     (case (case s of
              [] \<Rightarrow> None
            | d # r \<Rightarrow>
                if c = bslash \<and> \<not> is_line_terminator d then sub_pattern (acc @ [c, d]) r
                else None) of
        Some found \<Rightarrow> Some found
      | None \<Rightarrow>
          (case (if c \<noteq> ch CHR ''('' \<and> c \<noteq> ch CHR '')'' then sub_pattern (acc @ [c]) s
                 else None) of
             Some found \<Rightarrow> Some found
           | None \<Rightarrow> if c = ch CHR '')'' \<and> acc \<noteq> [] then Some (acc, s) else None))"

definition paren_group :: "jsstring \<Rightarrow> (jsstring \<times> jsstring) option" where
  "paren_group s =
     (case s of
        [] \<Rightarrow> None
      | c # r \<Rightarrow> if c = ch CHR ''('' then sub_pattern [] r else None)"

definition opt_suffix :: "jsstring \<Rightarrow> jsstring option \<times> jsstring" where
  "opt_suffix s =
     (case s of
        [] \<Rightarrow> (None, [])
      | c # r \<Rightarrow> if c \<in> set (str ''+*?'') then (Some [c], r) else (None, s))"

text \<open>The result of \<^verbatim>\<open>exec\<close>: \<open>r_m\<close> is \<^verbatim>\<open>res[0]\<close>, the other fields \<^verbatim>\<open>res[1]\<close> to \<^verbatim>\<open>res[7]\<close>.\<close>

record exec_result =
  r_m :: jsstring
  r_escaped :: "jsstring option"
  r_prefix :: "jsstring option"
  r_name :: "jsstring option"
  r_capture :: "jsstring option"
  r_group :: "jsstring option"
  r_suffix :: "jsstring option"
  r_asterisk :: "jsstring option"

definition no_groups :: exec_result where
  "no_groups = \<lparr>r_m = [], r_escaped = None, r_prefix = None, r_name = None, r_capture = None,
     r_group = None, r_suffix = None, r_asterisk = None\<rparr>"

text \<open>
  The second alternative after its optional prefix: a named parameter with an optional
  sub-pattern, or a group, each with an optional suffix; or an asterisk. The result
  carries the text that is left.
\<close>

definition parameter :: "jsstring \<Rightarrow> (exec_result \<times> jsstring) option" where
  "parameter s =
     (case s of
        [] \<Rightarrow> None
      | c # r \<Rightarrow>
          if c = ch CHR '':'' \<and> takeWhile is_word r \<noteq> [] then
            (let r1 = dropWhile is_word r;
                 (capture, r2) =
                   (case paren_group r1 of
                      None \<Rightarrow> (None, r1)
                    | Some (cap, r') \<Rightarrow> (Some cap, r'));
                 (suffix, r3) = opt_suffix r2
             in Some (no_groups\<lparr>r_name := Some (takeWhile is_word r), r_capture := capture,
                        r_suffix := suffix\<rparr>, r3))
          else if c = ch CHR ''('' then
            (case sub_pattern [] r of
               None \<Rightarrow> None
             | Some (grp, r2) \<Rightarrow>
                 (let (suffix, r3) = opt_suffix r2
                  in Some (no_groups\<lparr>r_group := Some grp, r_suffix := suffix\<rparr>, r3)))
          else if c = ch CHR ''*'' then Some (no_groups\<lparr>r_asterisk := Some [c]\<rparr>, r)
          else None)"

text \<open>The first alternative, \<^verbatim>\<open>(\\.)\<close>: a backslash and a character that ends no line.\<close>

definition escaped_pair :: "jsstring \<Rightarrow> jsstring option" where
  "escaped_pair s =
     (case s of
        c # d # _ \<Rightarrow> if c = bslash \<and> \<not> is_line_terminator d then Some [c, d] else None
      | _ \<Rightarrow> None)"

text \<open>
  A match that starts at the head of the string: the first alternative; else the second
  with its prefix, a slash or a dot; else the second without prefix.
\<close>

definition PATH_STRIPPER_at :: "jsstring \<Rightarrow> exec_result option" where
  "PATH_STRIPPER_at s =
     (let consumed = (\<lambda>(res, rest). res\<lparr>r_m := take (length s - length rest) s\<rparr>);
          unprefixed = map_option consumed (parameter s)
      in case escaped_pair s of
           Some pair \<Rightarrow> Some (no_groups\<lparr>r_m := pair, r_escaped := Some pair\<rparr>)
         | None \<Rightarrow>
             (case s of
                [] \<Rightarrow> None
              | c # r \<Rightarrow>
                  if c = ch CHR ''/'' \<or> c = ch CHR ''.'' then
                    (case parameter r of
                       Some (res, rest) \<Rightarrow> Some (consumed (res\<lparr>r_prefix := Some [c]\<rparr>, rest))
                     | None \<Rightarrow> unprefixed)
                  else unprefixed))"

text \<open>
  \<^verbatim>\<open>PATH_STRIPPER.exec\<close> on the text from \<^verbatim>\<open>lastIndex\<close> on: the leftmost position with
  a match, as an offset into that text.
\<close>

fun PATH_STRIPPER_exec :: "jsstring \<Rightarrow> (nat \<times> exec_result) option" where
  "PATH_STRIPPER_exec [] = None"
| "PATH_STRIPPER_exec (c # s) =
     (case PATH_STRIPPER_at (c # s) of
        Some res \<Rightarrow> Some (0, res)
      | None \<Rightarrow> map_option (\<lambda>(offset, res). (Suc offset, res)) (PATH_STRIPPER_exec s))"

lemma sub_pattern_shorter: "sub_pattern acc s = Some (cap, r) \<Longrightarrow> length r < length s"
proof (induction acc s rule: sub_pattern.induct)
  case (1 acc)
  then show ?case by simp
next
  case (2 acc c s)
  show ?case
  proof (cases s)
    case Nil
    with "2.prems" "2.IH"(2) show ?thesis
      by (auto split: option.splits if_splits)
  next
    case (Cons d r')
    with "2.prems" "2.IH" show ?thesis
      by (fastforce split: option.splits if_splits)
  qed
qed

lemma opt_suffix_shorter: "opt_suffix s = (suffix, r) \<Longrightarrow> length r \<le> length s"
  by (auto simp: opt_suffix_def split: list.splits if_splits)

lemma parameter_shorter:
  assumes "parameter s = Some (res, rest)"
  shows "length rest < length s"
proof (cases s)
  case Nil
  with assms show ?thesis by (simp add: parameter_def)
next
  case (Cons c r)
  have dw: "length (dropWhile is_word r) \<le> length r"
    by (rule length_dropWhile_le)
  have pg: "\<And>t cap r'. paren_group t = Some (cap, r') \<Longrightarrow> length r' < length t"
    by (auto simp: paren_group_def split: list.splits if_splits dest: sub_pattern_shorter)
  consider (named) "c = ch CHR '':''" "takeWhile is_word r \<noteq> []"
    | (grouped) "\<not> (c = ch CHR '':'' \<and> takeWhile is_word r \<noteq> [])" "c = ch CHR ''(''"
    | (star) "\<not> (c = ch CHR '':'' \<and> takeWhile is_word r \<noteq> [])" "c \<noteq> ch CHR ''(''"
    by blast
  then show ?thesis
  proof cases
    case named
    obtain capture r2 where cr: "(case paren_group (dropWhile is_word r) of
        None \<Rightarrow> (None, dropWhile is_word r) | Some (cap, r') \<Rightarrow> (Some cap, r')) = (capture, r2)"
      by (cases "(case paren_group (dropWhile is_word r) of
        None \<Rightarrow> (None, dropWhile is_word r) | Some (cap, r') \<Rightarrow> (Some cap, r'))") auto
    obtain suffix r3 where sr: "opt_suffix r2 = (suffix, r3)"
      by (cases "opt_suffix r2") auto
    from cr have "length r2 \<le> length (dropWhile is_word r)"
      by (auto split: option.splits dest: pg)
    moreover from sr have "length r3 \<le> length r2"
      by (rule opt_suffix_shorter)
    moreover from assms Cons named cr sr have "rest = r3"
      by (simp add: parameter_def Let_def)
    ultimately show ?thesis using dw Cons by simp
  next
    case grouped
    with assms Cons obtain grp r2 where sp: "sub_pattern [] r = Some (grp, r2)"
      by (auto simp: parameter_def split: option.splits)
    obtain suffix r3 where sr: "opt_suffix r2 = (suffix, r3)"
      by (cases "opt_suffix r2") auto
    from assms Cons grouped sp sr have "rest = r3"
      by (auto simp: parameter_def)
    with sub_pattern_shorter [OF sp] opt_suffix_shorter [OF sr] Cons show ?thesis by simp
  next
    case star
    with assms Cons show ?thesis
      by (auto simp: parameter_def split: if_splits)
  qed
qed

lemma escaped_pair_nonempty: "escaped_pair s = Some pair \<Longrightarrow> pair \<noteq> []"
  by (auto simp: escaped_pair_def split: list.splits if_splits)

lemma PATH_STRIPPER_at_nonempty:
  assumes "PATH_STRIPPER_at s = Some res"
  shows "r_m res \<noteq> []"
proof (cases "escaped_pair s")
  case (Some pair)
  with assms escaped_pair_nonempty [OF Some] show ?thesis
    by (auto simp: PATH_STRIPPER_at_def)
next
  case None
  show ?thesis
  proof (cases s)
    case Nil
    with assms None show ?thesis by (simp add: PATH_STRIPPER_at_def)
  next
    case (Cons c r)
    from assms None Cons show ?thesis
      unfolding PATH_STRIPPER_at_def Let_def
      by (auto split: if_splits option.splits dest: parameter_shorter)
  qed
qed

lemma PATH_STRIPPER_exec_nonempty:
  "PATH_STRIPPER_exec s = Some (offset, res) \<Longrightarrow> r_m res \<noteq> []"
  by (induction s arbitrary: offset)
     (auto split: option.splits dest: PATH_STRIPPER_at_nonempty)

subsection \<open>Tokens and \<^verbatim>\<open>_parse\<close>\<close>

record PathExpToken =
  name :: jsstring
  prefix :: jsstring
  delimiter :: jsstring
  optional :: bool
  repeat :: bool
  pattern :: jsstring

text \<open>An element of the token array: a string, or a parameter descriptor.\<close>

datatype token = Literal jsstring | Param PathExpToken

text \<open>\<^verbatim>\<open>a || b\<close> on a string that may be \<^verbatim>\<open>undefined\<close>: the empty string is falsy too.\<close>

definition or_else :: "jsstring option \<Rightarrow> jsstring \<Rightarrow> jsstring" where
  "or_else a b = (case a of None \<Rightarrow> b | Some s \<Rightarrow> if s = [] then b else s)"

function toString_nat :: "nat \<Rightarrow> jsstring" where
  "toString_nat n =
     (if n < 10 then [of_nat (48 + n)]
      else toString_nat (n div 10) @ [of_nat (48 + n mod 10)])"
  by pat_completeness auto
termination
  by (relation "measure id") auto

text \<open>
  The loop of \<^verbatim>\<open>_parse\<close>. \<open>rest\<close> is \<^verbatim>\<open>path\<close> from \<^verbatim>\<open>index\<close> on, which is also where
  the next \<^verbatim>\<open>exec\<close> starts. When \<^verbatim>\<open>exec\<close> returns \<^verbatim>\<open>null\<close> the remaining text is
  appended and the pending literal is pushed.
\<close>

function parse_loop :: "jsstring \<Rightarrow> token list \<Rightarrow> nat \<Rightarrow> jsstring \<Rightarrow> token list" where
  "parse_loop rest tokens key pathIt =
     (case PATH_STRIPPER_exec rest of
        None \<Rightarrow>
          (let pathIt' = pathIt @ rest
           in if pathIt' \<noteq> [] then tokens @ [Literal pathIt'] else tokens)
      | Some (offset, res) \<Rightarrow>
          (let pathIt1 = pathIt @ take offset rest;
               rest' = drop (offset + length (r_m res)) rest
           in if or_else (r_escaped res) [] \<noteq> [] then
                parse_loop rest' tokens key
                  (pathIt1 @ (case index (or_else (r_escaped res) []) 1 of
                                None \<Rightarrow> str ''undefined''
                              | Some c \<Rightarrow> [c]))
              else
                (let tokens1 = (if pathIt1 \<noteq> [] then tokens @ [Literal pathIt1] else tokens);
                     asterisk = r_asterisk res;
                     delimiter = or_else (r_prefix res) (str ''/'');
                     pattern =
                       or_else (r_capture res)
                         (or_else (r_group res)
                            (if or_else asterisk [] \<noteq> [] then str ''.*''
                             else str ''[^'' @ delimiter @ str '']+?''));
                     named = (or_else (r_name res) [] \<noteq> [])
                 in parse_loop rest'
                      (tokens1 @
                       [Param \<lparr>name = (if named then or_else (r_name res) [] else toString_nat key),
                          prefix = or_else (r_prefix res) [],
                          delimiter = delimiter,
                          optional = (r_suffix res = Some (str ''?'') \<or> r_suffix res = Some (str ''*'')),
                          repeat = (r_suffix res = Some (str ''+'') \<or> r_suffix res = Some (str ''*'')),
                          pattern = escapeGroup pattern\<rparr>])
                      (if named then key else Suc key) [])))"
  by pat_completeness auto
termination
proof (relation "measure (\<lambda>(rest, tokens, key, pathIt). length rest)", goal_cases)
  case 1
  show ?case by simp
next
  case (2 rest tokens key pathIt x2 offset res pathIt1 rest')
  then have "rest \<noteq> []" "r_m res \<noteq> []"
    by (auto dest: PATH_STRIPPER_exec_nonempty)
  with 2 show ?case by (cases rest) auto
next
  case (3 rest tokens key pathIt x2 offset res pathIt1 rest')
  then have "rest \<noteq> []" "r_m res \<noteq> []"
    by (auto dest: PATH_STRIPPER_exec_nonempty)
  with 3 show ?case by (cases rest) auto
qed

definition parse :: "jsstring \<Rightarrow> token list" where
  "parse path = parse_loop path [] 0 []"

section \<open>The platform\<close>

text \<open>
  What the router reads of \<^verbatim>\<open>location\<close>, and the built-ins it calls but does not
  contain: the URL parser (\<^verbatim>\<open>new URL(path, 'http://example.com')\<close>, or the anchor
  element where \<^verbatim>\<open>URL\<close> is missing), the regular expression engine behind
  \<^verbatim>\<open>new RegExp\<close>, \<^verbatim>\<open>test\<close> and \<^verbatim>\<open>exec\<close>, \<^verbatim>\<open>history.pushState\<close> and the assignment to
  \<^verbatim>\<open>location.hash\<close>. They are parameters of the model: every theorem that mentions a
  platform \<open>P\<close> holds whatever these built-ins do.
  \<^item> \<open>url_parse P path\<close> is the pair of \<^verbatim>\<open>pathname\<close> and \<^verbatim>\<open>search\<close>, or \<open>None\<close> when
    the constructor throws (a \<^verbatim>\<open>TypeError\<close>);
  \<^item> \<open>regexp_ok P source flags\<close> tells whether \<^verbatim>\<open>new RegExp(source, flags)\<close> accepts
    the pattern (it throws \<^verbatim>\<open>SyntaxError\<close> otherwise);
  \<^item> \<open>regexp_exec P source flags s\<close> is \<^verbatim>\<open>null\<close>, or the captures \<^verbatim>\<open>result.slice(1)\<close>,
    where a group that took no part in the match is \<^verbatim>\<open>undefined\<close>;
  \<^item> \<open>push_state P url loc\<close> is the location after \<^verbatim>\<open>history.pushState(null, null, url)\<close>
    (the URL \<open>None\<close> is \<^verbatim>\<open>undefined\<close>), or \<open>None\<close> when it throws (a \<^verbatim>\<open>DOMException\<close>);
    \<open>assign_hash P h loc\<close> is the location after \<^verbatim>\<open>location.hash = h\<close>.
\<close>

record location =
  href :: jsstring
  pathname :: jsstring
  search :: jsstring

record platform =
  url_parse :: "jsstring \<Rightarrow> (jsstring \<times> jsstring) option"
  regexp_ok :: "jsstring \<Rightarrow> jsstring \<Rightarrow> bool"
  regexp_exec :: "jsstring \<Rightarrow> jsstring \<Rightarrow> jsstring \<Rightarrow> jsstring option list option"
  push_state :: "jsstring option \<Rightarrow> location \<Rightarrow> location option"
  assign_hash :: "jsstring \<Rightarrow> location \<Rightarrow> location"

section \<open>Path expressions\<close>

text \<open>
  A \<^verbatim>\<open>PathExp\<close> is a regular expression, given by its source and flags, with the
  \<^verbatim>\<open>keys\<close> attached by \<^verbatim>\<open>stringToPathExp\<close>; \<^verbatim>\<open>DEF_ROUTE\<close> is the literal \<^verbatim>\<open>/.*/\<close>, whose
  \<^verbatim>\<open>keys\<close> is \<^verbatim>\<open>undefined\<close>.
\<close>

record PathExp =
  source :: jsstring
  flags :: jsstring
  keys :: "PathExpToken list option"

definition DEF_ROUTE :: PathExp where
  "DEF_ROUTE = \<lparr>source = str ''.*'', flags = [], keys = None\<rparr>"

text \<open>
  The options of \<^verbatim>\<open>_tokensToPathExp\<close>: \<open>strict\<close> and \<open>sensitive\<close> are the truthiness of
  \<^verbatim>\<open>options['strict']\<close> and \<^verbatim>\<open>options['sensitive']\<close>, \<open>ending\<close> is
  \<^verbatim>\<open>options['end'] !== false\<close>. The default \<^verbatim>\<open>{}\<close> is \<open>no_options\<close>.
\<close>

record expOptions =
  strict :: bool
  ending :: bool
  sensitive :: bool

definition no_options :: expOptions where
  "no_options = \<lparr>strict = False, ending = True, sensitive = False\<rparr>"

definition flags_of :: "expOptions \<Rightarrow> jsstring" where
  "flags_of opts = (if sensitive opts then [] else str ''i'')"

text \<open>The text one token adds to \<^verbatim>\<open>route\<close> in the loop of \<^verbatim>\<open>_tokensToPathExp\<close>.\<close>

definition token_route :: "token \<Rightarrow> jsstring" where
  "token_route t =
     (case t of
        Literal s \<Rightarrow> escapeString s
      | Param k \<Rightarrow>
          (let pre = escapeString (prefix k);
               capture =
                 (if repeat k then pattern k @ str ''(?:'' @ pre @ pattern k @ str '')*''
                  else pattern k)
           in if optional k then
                (if pre \<noteq> [] then str ''(?:'' @ pre @ str ''('' @ capture @ str ''))?''
                 else str ''('' @ capture @ str '')?'')
              else pre @ str ''('' @ capture @ str '')''))"

definition endsWithSlash :: "token list \<Rightarrow> bool" where
  "endsWithSlash tokens =
     (case rev tokens of
        [] \<Rightarrow> False
      | lastToken # _ \<Rightarrow>
          (case lastToken of
             Literal s \<Rightarrow> (case rev s of [] \<Rightarrow> False | c # _ \<Rightarrow> c = ch CHR ''/'')
           | Param _ \<Rightarrow> False))"

definition route_source :: "token list \<Rightarrow> expOptions \<Rightarrow> jsstring" where
  "route_source tokens opts =
     (let route = concat (map token_route tokens);
          route1 =
            (if \<not> strict opts then
               (if endsWithSlash tokens then take (length route - 2) route else route)
               @ str ''(?:'' @ [bslash] @ str ''/(?=$))?''
             else route);
          route2 =
            (if ending opts then route1 @ str ''$''
             else route1 @
               (if strict opts \<and> endsWithSlash tokens then []
                else str ''(?='' @ [bslash] @ str ''/|$)''))
      in str ''^'' @ route2)"

definition tokensToPathExp :: "platform \<Rightarrow> token list \<Rightarrow> expOptions option \<Rightarrow> error + PathExp" where
  "tokensToPathExp P tokens options =
     (let opts = (case options of None \<Rightarrow> no_options | Some given \<Rightarrow> given);
          src = route_source tokens opts
      in if regexp_ok P src (flags_of opts)
         then Inr \<lparr>source = src, flags = flags_of opts, keys = None\<rparr>
         else Inl SyntaxError)"

fun param_tokens :: "token list \<Rightarrow> PathExpToken list" where
  "param_tokens [] = []"
| "param_tokens (Literal s # ts) = param_tokens ts"
| "param_tokens (Param k # ts) = k # param_tokens ts"

definition stringToPathExp :: "platform \<Rightarrow> jsstring \<Rightarrow> expOptions option \<Rightarrow> error + PathExp" where
  "stringToPathExp P path options =
     (let tokens = parse path
      in case tokensToPathExp P tokens options of
           Inl e \<Rightarrow> Inl e
         | Inr compiled \<Rightarrow> Inr (compiled\<lparr>keys := Some (param_tokens tokens)\<rparr>))"

text \<open>
  The number of capturing groups of a pattern, by the grammar of ECMA-262: a backslash
  escapes the next character, a parenthesis inside a character class is a literal, and
  an opening parenthesis captures unless it is followed by \<^verbatim>\<open>?\<close> (a named group
  \<^verbatim>\<open>(?<name>\<close> captures; the look-behinds \<^verbatim>\<open>(?<=\<close> and \<^verbatim>\<open>(?<!\<close> do not). The flag says
  whether the scan is inside a character class.
\<close>

definition opens_capture :: "jsstring \<Rightarrow> bool" where
  "opens_capture after =
     (case after of
        [] \<Rightarrow> True
      | q # r \<Rightarrow>
          if q \<noteq> ch CHR ''?'' then True
          else (case r of
                  [] \<Rightarrow> False
                | l # r' \<Rightarrow>
                    l = ch CHR ''<'' \<and>
                    (case r' of [] \<Rightarrow> True | e # _ \<Rightarrow> e \<noteq> ch CHR ''='' \<and> e \<noteq> ch CHR ''!'')))"

fun groups_from :: "bool \<Rightarrow> jsstring \<Rightarrow> nat" where
  "groups_from in_class [] = 0"
| "groups_from in_class [c] = (if \<not> in_class \<and> c = ch CHR ''('' then 1 else 0)"
| "groups_from in_class (c # d # s) =
     (if c = bslash then groups_from in_class s
      else if in_class then groups_from (c \<noteq> ch CHR '']'') (d # s)
      else if c = ch CHR ''['' then groups_from True (d # s)
      else if c = ch CHR ''('' then
        (if opens_capture (d # s) then 1 else 0) + groups_from False (d # s)
      else groups_from False (d # s))"

definition capturing_groups :: "jsstring \<Rightarrow> nat" where
  "capturing_groups src = groups_from False src"

subsection \<open>parsePath\<close>

record Path =
  path :: jsstring
  query :: jsobject
  queryString :: jsstring

definition parsePath :: "platform \<Rightarrow> jsstring \<Rightarrow> error + Path" where
  "parsePath P p =
     (case url_parse P p of
        None \<Rightarrow> Inl TypeError
      | Some (parser_pathname, parser_search) \<Rightarrow>
          (case parseQuery parser_search of
             Inl e \<Rightarrow> Inl e
           | Inr q \<Rightarrow>
               Inr \<lparr>path = clearSlashes parser_pathname, query = q,
                    queryString = parser_search\<rparr>))"

section \<open>Router\<close>

subsection \<open>State\<close>

text \<open>
  The values the registration surface tells apart: a string, a function, or
  \<^verbatim>\<open>undefined\<close>. A function is named by a number; what it does when called is given by
  the callback table below.
\<close>

datatype jsvalue = VStr jsstring | VFun nat | VUndefined

text \<open>
  \<^verbatim>\<open>Options\<close>: every property is optional; \<open>None\<close> is a property that is \<^verbatim>\<open>undefined\<close>.
\<close>

record Options =
  mode :: "jsstring option"
  root :: "jsstring option"
  silent :: "bool option"

definition DEF_OPTIONS :: Options where
  "DEF_OPTIONS = \<lparr>mode = Some (str ''hash''), root = Some (str ''/''), silent = Some False\<rparr>"

record Handler =
  pathExp :: PathExp
  activate :: jsvalue

text \<open>An entry of \<^verbatim>\<open>RouteGroup._handlers\<close>, with its properties \<^verbatim>\<open>path\<close> and \<^verbatim>\<open>activate\<close>.\<close>

record GroupHandler =
  gpath :: jsvalue
  gactivate :: jsvalue

type_synonym RouteGroup = "GroupHandler list"

definition RouteGroup_use :: "jsvalue \<Rightarrow> jsvalue \<Rightarrow> RouteGroup \<Rightarrow> RouteGroup" where
  "RouteGroup_use p a group_handlers = group_handlers @ [\<lparr>gpath = p, gactivate = a\<rparr>]"

record Request = Path +
  params :: jsobject
  oldPath :: "jsstring nullable"

text \<open>A \<^verbatim>\<open>RequestProcessor\<close>, with its properties \<^verbatim>\<open>request\<close> and \<^verbatim>\<open>activate\<close>.\<close>

record RequestProcessor =
  request :: Request
  processor_activate :: jsvalue

text \<open>What a callback returns: exactly \<^verbatim>\<open>false\<close>, or anything else.\<close>

datatype returned = ReturnedFalse | ReturnedOther

text \<open>
  One invocation of a callback by \<^verbatim>\<open>_load\<close>: the function, the request it received,
  and how it ended.
\<close>

record Call =
  called :: nat
  received :: Request
  outcome :: "error + returned"

datatype event = Popstate | Hashchange

text \<open>
  The state the router works on: its static fields \<^verbatim>\<open>_options\<close>, \<^verbatim>\<open>_loadedPath\<close> and
  \<^verbatim>\<open>_handlers\<close>; the events for which \<^verbatim>\<open>_loadCurrent\<close> is registered as a listener;
  the browser's location; the state of the application, of any type. \<open>calls\<close> is a
  history variable: the invocations of callbacks made by \<^verbatim>\<open>_load\<close>, oldest first.
\<close>

record 'a world =
  options :: "Options nullable"
  loadedPath :: "jsstring nullable"
  handlers :: "Handler list"
  listeners :: "event set"
  location :: location
  calls :: "Call list"
  app :: 'a

text \<open>
  Before the first call: \<^verbatim>\<open>_options\<close> and \<^verbatim>\<open>_loadedPath\<close> are declared without a
  value, \<^verbatim>\<open>_handlers\<close> is \<^verbatim>\<open>[]\<close>.
\<close>

definition initial :: "location \<Rightarrow> 'a \<Rightarrow> 'a world" where
  "initial loc a =
     \<lparr>options = Undefined, loadedPath = Undefined, handlers = [], listeners = {},
      location = loc, calls = [], app = a\<rparr>"

text \<open>
  A callback is any function of the request and the state that returns or throws. It
  may change everything but the history variable, the router's fields included (a
  callback may call the router).
\<close>

type_synonym 'a callbacks = "nat \<Rightarrow> Request \<Rightarrow> 'a world \<Rightarrow> (error + returned) \<times> 'a world"

subsection \<open>Registration\<close>

fun extractHandlers ::
  "platform \<Rightarrow> jsstring option \<Rightarrow> RouteGroup \<Rightarrow> Handler list \<Rightarrow> error + Handler list" where
  "extractHandlers P parentPath [] hs = Inr hs"
| "extractHandlers P parentPath (itHandler # groupHandlers) hs =
     (case (case gpath itHandler of
              VFun f \<Rightarrow> Inr (VFun f, None)
            | VStr s \<Rightarrow> Inr (gactivate itHandler, Some (clearSlashes s))
            | VUndefined \<Rightarrow> Inl TypeError) of
        Inl e \<Rightarrow> Inl e
      | Inr (act, subPath) \<Rightarrow>
          (case (case parentPath of
                   None \<Rightarrow>
                     (case subPath of
                        None \<Rightarrow> Inr DEF_ROUTE
                      | Some sub \<Rightarrow> stringToPathExp P sub None)
                 | Some parent \<Rightarrow>
                     (case subPath of
                        None \<Rightarrow> stringToPathExp P parent None
                      | Some sub \<Rightarrow> stringToPathExp P (parent @ str ''/'' @ sub) None)) of
             Inl e \<Rightarrow> Inl e
           | Inr compiled \<Rightarrow>
               extractHandlers P parentPath groupHandlers
                 (hs @ [\<lparr>pathExp = compiled, activate = act\<rparr>])))"

text \<open>
  An argument of \<^verbatim>\<open>use\<close> is a \<^verbatim>\<open>RouteGroup\<close> or another value; an argument left out is
  \<^verbatim>\<open>undefined\<close>. The group branch calls \<^verbatim>\<open>_extractHandlers\<close> with two arguments, so the
  holder starts as the default \<^verbatim>\<open>[]\<close>, and assigns the result to \<^verbatim>\<open>_handlers\<close>.
\<close>

datatype use_arg = Val jsvalue | Group RouteGroup

definition use :: "platform \<Rightarrow> use_arg \<Rightarrow> use_arg \<Rightarrow> 'a world \<Rightarrow> (error + unit) \<times> 'a world" where
  "use P path_arg activate_arg w =
     (let from_group = (\<lambda>parentPath g.
            case extractHandlers P parentPath g [] of
              Inl e \<Rightarrow> (Inl e, w)
            | Inr hs \<Rightarrow> (Inr (), w\<lparr>handlers := hs\<rparr>))
      in case path_arg of
           Group g \<Rightarrow> from_group None g
         | Val p \<Rightarrow>
             (case activate_arg of
                Group g \<Rightarrow>
                  (case p of
                     VStr s \<Rightarrow> from_group (Some (clearSlashes s)) g
                   | _ \<Rightarrow> (Inl TypeError, w))
              | Val a \<Rightarrow>
                  (case p of
                     VFun f \<Rightarrow>
                       (Inr (), w\<lparr>handlers := handlers w @ [\<lparr>pathExp = DEF_ROUTE, activate = VFun f\<rparr>]\<rparr>)
                   | VStr s \<Rightarrow>
                       (case stringToPathExp P (clearSlashes s) None of
                          Inl e \<Rightarrow> (Inl e, w)
                        | Inr compiled \<Rightarrow>
                            (Inr (), w\<lparr>handlers := handlers w @ [\<lparr>pathExp = compiled, activate = a\<rparr>]\<rparr>))
                   | VUndefined \<Rightarrow> (Inl TypeError, w))))"

subsection \<open>Matching and loading\<close>

text \<open>
  The loop of \<^verbatim>\<open>_extractRequest\<close> over \<^verbatim>\<open>args = result.slice(1)\<close>: for a defined
  \<^verbatim>\<open>args[i]\<close> it reads \<^verbatim>\<open>keys[i].name\<close>, which throws when \<^verbatim>\<open>keys\<close> or \<^verbatim>\<open>keys[i]\<close> is
  \<^verbatim>\<open>undefined\<close>, and then decodes the argument.
\<close>

fun extractRequest_loop ::
  "jsstring option list \<Rightarrow> PathExpToken list option \<Rightarrow> nat \<Rightarrow> jsobject \<Rightarrow> error + jsobject" where
  "extractRequest_loop [] ks i ps = Inr ps"
| "extractRequest_loop (arg # args) ks i ps =
     (case arg of
        None \<Rightarrow> extractRequest_loop args ks (Suc i) ps
      | Some a \<Rightarrow>
          (case ks of
             None \<Rightarrow> Inl TypeError
           | Some key_list \<Rightarrow>
               (case index key_list i of
                  None \<Rightarrow> Inl TypeError
                | Some k \<Rightarrow>
                    (case decodeURIComponent (Some a) of
                       Inl e \<Rightarrow> Inl e
                     | Inr v \<Rightarrow> extractRequest_loop args ks (Suc i) (put_property (name k) v ps)))))"

definition extractRequest :: "platform \<Rightarrow> jsstring \<Rightarrow> PathExp option \<Rightarrow> error + Request" where
  "extractRequest P p exp_opt =
     (case parsePath P p of
        Inl e \<Rightarrow> Inl e
      | Inr parsed \<Rightarrow>
          (let req = \<lparr>path = path parsed, query = query parsed, queryString = queryString parsed,
                      params = [], oldPath = Undefined\<rparr>
           in case exp_opt of
                None \<Rightarrow> Inr req
              | Some e \<Rightarrow>
                  (case regexp_exec P (source e) (flags e) (path req) of
                     None \<Rightarrow> Inr req
                   | Some args \<Rightarrow>
                       (case extractRequest_loop args (keys e) 0 [] of
                          Inl err \<Rightarrow> Inl err
                        | Inr ps \<Rightarrow> Inr (req\<lparr>params := ps\<rparr>)))))"

fun obtainRequestProcessors_loop ::
  "platform \<Rightarrow> jsstring \<Rightarrow> jsstring \<Rightarrow> Handler list \<Rightarrow> error + RequestProcessor list" where
  "obtainRequestProcessors_loop P p parsed_path [] = Inr []"
| "obtainRequestProcessors_loop P p parsed_path (h # hs) =
     (if regexp_exec P (source (pathExp h)) (flags (pathExp h)) parsed_path \<noteq> None then
        (case extractRequest P p (Some (pathExp h)) of
           Inl e \<Rightarrow> Inl e
         | Inr req \<Rightarrow>
             (case obtainRequestProcessors_loop P p parsed_path hs of
                Inl e \<Rightarrow> Inl e
              | Inr rps \<Rightarrow> Inr (\<lparr>request = req, processor_activate = activate h\<rparr> # rps)))
      else obtainRequestProcessors_loop P p parsed_path hs)"

definition obtainRequestProcessors ::
  "platform \<Rightarrow> jsstring \<Rightarrow> 'a world \<Rightarrow> error + RequestProcessor list" where
  "obtainRequestProcessors P p w =
     (case parsePath P p of
        Inl e \<Rightarrow> Inl e
      | Inr parsedPath \<Rightarrow> obtainRequestProcessors_loop P p (path parsedPath) (handlers w))"

text \<open>
  The loop of \<^verbatim>\<open>_load\<close>. Each round stores the current \<^verbatim>\<open>_loadedPath\<close> in the request,
  calls \<^verbatim>\<open>activate\<close> (a \<^verbatim>\<open>TypeError\<close> if it is not a function), and stops without
  counting when the callback returned \<^verbatim>\<open>false\<close>. The call is recorded whatever its
  outcome.
\<close>

fun load_loop ::
  "'a callbacks \<Rightarrow> RequestProcessor list \<Rightarrow> nat \<Rightarrow> 'a world \<Rightarrow> (error + nat) \<times> 'a world" where
  "load_loop F [] count w = (Inr count, w)"
| "load_loop F (requestProcessor # rps) count w =
     (let req = (request requestProcessor)\<lparr>oldPath := loadedPath w\<rparr>
      in case processor_activate requestProcessor of
           VFun f \<Rightarrow>
             (case F f req w of
                (res, w1) \<Rightarrow>
                  (let w2 = w1\<lparr>calls := calls w @ [\<lparr>called = f, received = req, outcome = res\<rparr>]\<rparr>
                   in case res of
                        Inl e \<Rightarrow> (Inl e, w2)
                      | Inr next \<Rightarrow>
                          if next = ReturnedFalse then (Inr count, w2)
                          else load_loop F rps (Suc count) w2))
         | _ \<Rightarrow> (Inl TypeError, w))"

definition load :: "platform \<Rightarrow> 'a callbacks \<Rightarrow> jsstring \<Rightarrow> 'a world \<Rightarrow> (error + bool) \<times> 'a world" where
  "load P F p w =
     (case obtainRequestProcessors P p w of
        Inl e \<Rightarrow> (Inl e, w)
      | Inr requestProcessors \<Rightarrow>
          (case load_loop F requestProcessors 0 w of
             (Inl e, w') \<Rightarrow> (Inl e, w')
           | (Inr count, w') \<Rightarrow> (Inr (0 < count), w'\<lparr>loadedPath := Defined p\<rparr>)))"

subsection \<open>getCurrent and _loadCurrent\<close>

text \<open>
  \<^verbatim>\<open>location.href.match(/#(.*)$/)\<close>: the text after the leftmost \<^verbatim>\<open>#\<close> that is followed
  by no line terminator up to the end (\<^verbatim>\<open>.\<close> matches none, \<^verbatim>\<open>$\<close> is the end of input).
\<close>

fun hash_match :: "jsstring \<Rightarrow> jsstring option" where
  "hash_match [] = None"
| "hash_match (c # s) =
     (if c = ch CHR ''#'' \<and> \<not> list_ex is_line_terminator s then Some s else hash_match s)"

definition getCurrent :: "'a world \<Rightarrow> error + jsstring" where
  "getCurrent w =
     (case options w of
        Defined opts \<Rightarrow>
          if mode opts = Some (str ''history'') then
            (case decodeURI (pathname (location w) @ search (location w)) of
               Inl e \<Rightarrow> Inl e
             | Inr decodedUri \<Rightarrow>
                 (case root opts of
                    None \<Rightarrow> Inl TypeError
                  | Some r \<Rightarrow>
                      Inr (clearSlashes
                            (if r = str ''/'' then clearSlashes decodedUri
                             else drop (length r) (clearSlashes decodedUri)))))
          else
            Inr (clearSlashes
                  (case hash_match (href (location w)) of None \<Rightarrow> [] | Some m \<Rightarrow> m))
      | _ \<Rightarrow> Inl TypeError)"

text \<open>
  \<^verbatim>\<open>_loadCurrent\<close> reaches the router through \<^verbatim>\<open>this\<close> only (\<^verbatim>\<open>this.getCurrent()\<close>,
  \<^verbatim>\<open>this._loadedPath\<close>, \<^verbatim>\<open>this._load\<close>), so what it does depends on its receiver, and it
  has two. \<^verbatim>\<open>listen\<close> calls it as \<^verbatim>\<open>this._loadCurrent()\<close>, on the router. \<^verbatim>\<open>listen\<close> also
  hands the bare function \<^verbatim>\<open>this._loadCurrent\<close> to \<^verbatim>\<open>addEventListener\<close>, and nothing in
  the source binds it; a listener added to the window runs with the window as \<^verbatim>\<open>this\<close>.
  (The predecessor of the library bound its listener: \<^verbatim>\<open>this._checkUrl.bind(this)\<close>.)
  The window has no \<^verbatim>\<open>getCurrent\<close>: the library adds one global, the module \<^verbatim>\<open>prouter\<close>.
  So there the first statement calls \<^verbatim>\<open>undefined\<close>: a \<^verbatim>\<open>TypeError\<close>, before the
  comparison with \<^verbatim>\<open>_loadedPath\<close> and before any \<^verbatim>\<open>_load\<close>.
\<close>

datatype receiver = OnRouter | OnWindow

definition loadCurrent ::
  "platform \<Rightarrow> 'a callbacks \<Rightarrow> receiver \<Rightarrow> 'a world \<Rightarrow> (error + bool) \<times> 'a world" where
  "loadCurrent P F self w =
     (case self of
        OnWindow \<Rightarrow> (Inl TypeError, w)
      | OnRouter \<Rightarrow>
          (case getCurrent w of
             Inl e \<Rightarrow> (Inl e, w)
           | Inr currentPath \<Rightarrow>
               if Defined currentPath = loadedPath w then (Inr False, w)
               else load P F currentPath w))"

text \<open>
  An event of the browser. The browser dispatches \<^verbatim>\<open>popstate\<close> and \<^verbatim>\<open>hashchange\<close> to
  the window once the running script has returned, so an event is a step of its own:
  if \<^verbatim>\<open>_loadCurrent\<close> is registered for the event it runs, with the window as receiver.
  What the listener returns or throws reaches no caller of the router (the browser
  reports an exception of a listener as an uncaught error); it is returned here as the
  outcome of the event, \<open>None\<close> when no listener is registered.
\<close>

definition dispatch ::
  "platform \<Rightarrow> 'a callbacks \<Rightarrow> event \<Rightarrow> 'a world \<Rightarrow> (error + bool) option \<times> 'a world" where
  "dispatch P F e w =
     (if e \<in> listeners w then
        (case loadCurrent P F OnWindow w of (r, w') \<Rightarrow> (Some r, w'))
      else (None, w))"

subsection \<open>listen, stop and navigate\<close>

definition AlreadyListening :: error where
  "AlreadyListening = Error (str ''Router already listening.'')"

definition InvalidMode :: "jsstring option \<Rightarrow> error" where
  "InvalidMode m =
     Error (str ''Invalid mode '' @ [0x27] @ ToString m @ [0x27]
            @ str ''. Valid modes are: 'history', 'hash'.'')"

definition NotListening :: error where
  "NotListening =
     Error (str ''It is required to call the 'listen' function before navigating.'')"

text \<open>
  The loop of \<^verbatim>\<open>listen\<close> over the properties of the defaults, on the fresh \<^verbatim>\<open>{}\<close>: a
  property the caller gave wins, a missing one takes the default.
\<close>

definition merge_options :: "Options \<Rightarrow> Options" where
  "merge_options given =
     \<lparr>mode = (case mode given of None \<Rightarrow> mode DEF_OPTIONS | Some m \<Rightarrow> Some m),
      root = (case root given of None \<Rightarrow> root DEF_OPTIONS | Some r \<Rightarrow> Some r),
      silent = (case silent given of None \<Rightarrow> silent DEF_OPTIONS | Some b \<Rightarrow> Some b)\<rparr>"

definition listen :: "platform \<Rightarrow> 'a callbacks \<Rightarrow> Options \<Rightarrow> 'a world \<Rightarrow> (error + bool) \<times> 'a world" where
  "listen P F given w =
     (case options w of
        Defined _ \<Rightarrow> (Inl AlreadyListening, w)
      | _ \<Rightarrow>
          (let opts = merge_options given;
               w1 = w\<lparr>options := Defined opts\<rparr>
           in if mode opts = Some (str ''history'') \<or> mode opts = Some (str ''hash'') then
                (let w2 = w1\<lparr>listeners :=
                       insert (if mode opts = Some (str ''history'') then Popstate else Hashchange)
                         (listeners w1)\<rparr>
                 in if silent opts = Some True then (Inr False, w2)
                    else loadCurrent P F OnRouter w2)
              else (Inl (InvalidMode (mode opts)), w1)))"

definition stop :: "platform \<Rightarrow> 'a world \<Rightarrow> (error + unit) \<times> 'a world" where
  "stop P w =
     (let reset = (\<lambda>w'. (Inr (), w'\<lparr>handlers := [], loadedPath := Null, options := Null\<rparr>))
      in case options w of
           Defined opts \<Rightarrow>
             if mode opts = Some (str ''history'') then
               (let w1 = w\<lparr>listeners := listeners w - {Popstate}\<rparr>
                in case push_state P (root opts) (location w1) of
                     None \<Rightarrow> (Inl DOMException, w1)
                   | Some loc \<Rightarrow> reset (w1\<lparr>location := loc\<rparr>))
             else
               reset (w\<lparr>listeners := listeners w - {Hashchange},
                        location := assign_hash P (str ''#'') (location w)\<rparr>)
         | _ \<Rightarrow> (Inl TypeError, w))"

definition navigate :: "platform \<Rightarrow> 'a callbacks \<Rightarrow> jsstring \<Rightarrow> 'a world \<Rightarrow> (error + bool) \<times> 'a world" where
  "navigate P F p w =
     (case options w of
        Defined opts \<Rightarrow>
          (let p' = clearSlashes p
           in if mode opts = Some (str ''history'') then
                (case push_state P (Some (ToString (root opts) @ p')) (location w) of
                   None \<Rightarrow> (Inl DOMException, w)
                 | Some loc \<Rightarrow> load P F p' (w\<lparr>location := loc\<rparr>))
              else if mode opts = Some (str ''hash'') then
                load P F p' (w\<lparr>location := assign_hash P (str ''#'' @ p') (location w)\<rparr>)
              else load P F p' w)
      | _ \<Rightarrow> (Inl NotListening, w))"

section \<open>A sample platform\<close>

text \<open>
  A platform to run the model on concrete inputs. It is exact where the inputs are
  plain: \<open>sample_url_parse\<close> on a relative reference made of letters, digits, \<^verbatim>\<open>/\<close>,
  \<^verbatim>\<open>?\<close>, \<^verbatim>\<open>=\<close>, \<^verbatim>\<open>&\<close> and \<^verbatim>\<open>%\<close> that does not start with a slash (the path is put under
  \<^verbatim>\<open>/\<close>, the query starts at the first \<^verbatim>\<open>?\<close>, and an empty query gives the empty
  \<^verbatim>\<open>search\<close>); \<open>sample_regexp_exec\<close> on the pattern \<^verbatim>\<open>.*\<close> of the default route, which
  matches every string and captures nothing, and on \<open>one_parameter\<close>, the pattern
  \<^verbatim>\<open>^([^\/]+?)(?:\/(?=$))?$\<close> of a route that is a single parameter, which matches one
  non-empty segment without a slash, optionally followed by a slash, and captures the
  segment. Every other pattern is accepted by \<open>regexp_ok\<close> and treated as matching
  nothing; the sample platform is used only with these two patterns where a match
  matters. The location is that of a page of \<^verbatim>\<open>http://example.com\<close>.
\<close>

definition sample_url_parse :: "jsstring \<Rightarrow> (jsstring \<times> jsstring) option" where
  "sample_url_parse p =
     (let before_hash = takeWhile (\<lambda>c. c \<noteq> ch CHR ''#'') p;
          q = dropWhile (\<lambda>c. c \<noteq> ch CHR ''?'') before_hash
      in Some (str ''/'' @ takeWhile (\<lambda>c. c \<noteq> ch CHR ''?'') before_hash,
              if q = str ''?'' then [] else q))"

definition one_parameter :: jsstring where
  "one_parameter = str ''^([^'' @ [bslash] @ str ''/]+?)(?:'' @ [bslash] @ str ''/(?=$))?$''"

definition sample_regexp_exec :: "jsstring \<Rightarrow> jsstring \<Rightarrow> jsstring \<Rightarrow> jsstring option list option" where
  "sample_regexp_exec src fl s =
     (if src = str ''.*'' then Some []
      else if src = one_parameter then
        (let seg = takeWhile (\<lambda>c. c \<noteq> ch CHR ''/'') s;
             rest = dropWhile (\<lambda>c. c \<noteq> ch CHR ''/'') s
         in if seg \<noteq> [] \<and> (rest = [] \<or> rest = str ''/'') then Some [Some seg] else None)
      else None)"

definition sample_push_state :: "jsstring option \<Rightarrow> location \<Rightarrow> location option" where
  "sample_push_state url loc =
     (case url of
        None \<Rightarrow> Some loc
      | Some u \<Rightarrow>
          Some \<lparr>href = str ''http://example.com'' @ u,
               pathname = takeWhile (\<lambda>c. c \<noteq> ch CHR ''?'') u,
               search = dropWhile (\<lambda>c. c \<noteq> ch CHR ''?'') u\<rparr>)"

definition sample_assign_hash :: "jsstring \<Rightarrow> location \<Rightarrow> location" where
  "sample_assign_hash h loc =
     loc\<lparr>href := takeWhile (\<lambda>c. c \<noteq> ch CHR ''#'') (href loc)
                  @ (case h of
                       [] \<Rightarrow> str ''#''
                     | c # _ \<Rightarrow> if c = ch CHR ''#'' then h else str ''#'' @ h)\<rparr>"

definition sample_platform :: platform where
  "sample_platform =
     \<lparr>url_parse = sample_url_parse, regexp_ok = (\<lambda>src fl. True),
      regexp_exec = sample_regexp_exec, push_state = sample_push_state,
      assign_hash = sample_assign_hash\<rparr>"

definition home :: location where
  "home = \<lparr>href = str ''http://example.com/'', pathname = str ''/'', search = []\<rparr>"

section \<open>States of the router and sample runs\<close>

text \<open>
  The router is listening when \<^verbatim>\<open>listen\<close> has set its options and registered
  \<^verbatim>\<open>_loadCurrent\<close> for the event of its mode; it is idle when it has no options and no
  registration.
\<close>

definition listening :: "'a world \<Rightarrow> bool" where
  "listening w =
     (case options w of
        Defined opts \<Rightarrow>
          (mode opts = Some (str ''history'') \<and> listeners w = {Popstate}) \<or>
          (mode opts = Some (str ''hash'') \<and> listeners w = {Hashchange})
      | _ \<Rightarrow> False)"

definition idle :: "'a world \<Rightarrow> bool" where
  "idle w = ((options w = Undefined \<or> options w = Null) \<and> listeners w = {})"

text \<open>
  Two callback tables: in the first, function 1 returns \<^verbatim>\<open>false\<close> and every other
  function returns nothing; in the second, every function returns nothing.
\<close>

definition veto_first :: "unit callbacks" where
  "veto_first f req w = (if f = 1 then Inr ReturnedFalse else Inr ReturnedOther, w)"

definition always_continue :: "unit callbacks" where
  "always_continue f req w = (Inr ReturnedOther, w)"

definition silently :: Options where
  "silently = \<lparr>mode = None, root = None, silent = Some True\<rparr>"

definition unknown_mode :: Options where
  "unknown_mode = \<lparr>mode = Some (str ''x''), root = None, silent = None\<rparr>"

text \<open>
  \<^verbatim>\<open>Router.use(f1).use(f2)\<close> on a fresh page; then \<^verbatim>\<open>Router.listen({silent: true})\<close>,
  or the same in history mode; then \<^verbatim>\<open>Router.navigate('a')\<close>. And
  \<^verbatim>\<open>Router.listen({mode: 'x'})\<close> on a fresh page.
\<close>

definition two_defaults :: "unit world" where
  "two_defaults =
     snd (use sample_platform (Val (VFun 2)) (Val VUndefined)
       (snd (use sample_platform (Val (VFun 1)) (Val VUndefined) (initial home ()))))"

definition started :: "unit world" where
  "started = snd (listen sample_platform veto_first silently two_defaults)"

definition started_history :: "unit world" where
  "started_history =
     snd (listen sample_platform veto_first
            \<lparr>mode = Some (str ''history''), root = None, silent = Some True\<rparr> two_defaults)"

definition loaded_a :: "unit world" where
  "loaded_a = snd (navigate sample_platform always_continue (str ''a'') started)"

definition failed_start :: "unit world" where
  "failed_start = snd (listen sample_platform veto_first unknown_mode (initial home ()))"

text \<open>
  \<^verbatim>\<open>Router.use('x', f0)\<close> on a fresh page, and the group of
  \<^verbatim>\<open>group.use('a', f1); group.use('b', f2)\<close>; \<^verbatim>\<open>Router.use(':id', f1)\<close> on a fresh page.
\<close>

definition with_x :: "unit world" where
  "with_x = snd (use sample_platform (Val (VStr (str ''x''))) (Val (VFun 0)) (initial home ()))"

definition group_ab :: RouteGroup where
  "group_ab = RouteGroup_use (VStr (str ''b'')) (VFun 2) (RouteGroup_use (VStr (str ''a'')) (VFun 1) [])"

definition one_param :: "unit world" where
  "one_param = snd (use sample_platform (Val (VStr (str '':id''))) (Val (VFun 1)) (initial home ()))"

text \<open>The route \<^verbatim>\<open>:id(\(a\))\<close>: a parameter whose sub-pattern has escaped parentheses.\<close>

definition escaped_parens :: jsstring where
  "escaped_parens = str '':id('' @ [bslash] @ str ''(a'' @ [bslash] @ str ''))''"

text \<open>
  A part of the query, or a captured parameter, whose decoding fails; a query with such a
  part in a key or a value; a handler whose pattern captures such a parameter from the
  path.
\<close>

definition undecodable :: "jsstring option \<Rightarrow> bool" where
  "undecodable v = (decodeURIComponent v = Inl URIError)"

definition bad_query :: "jsstring \<Rightarrow> bool" where
  "bad_query qs =
     (\<exists>part \<in> set (paramsArr qs).
        undecodable (index (js_split (ch CHR ''='') part) 0) \<or>
        undecodable (index (js_split (ch CHR ''='') part) 1))"

definition bad_param :: "platform \<Rightarrow> jsstring \<Rightarrow> Handler \<Rightarrow> bool" where
  "bad_param P parsed_path h =
     (case regexp_exec P (source (pathExp h)) (flags (pathExp h)) parsed_path of
        None \<Rightarrow> False
      | Some args \<Rightarrow> \<exists>a \<in> set args. a \<noteq> None \<and> undecodable a)"

section \<open>Properties\<close>

subsection \<open>Evaluation of the sample runs\<close>

lemmas sample_defs = sample_platform_def sample_url_parse_def sample_regexp_exec_def
  sample_push_state_def sample_assign_hash_def home_def one_parameter_def

lemmas string_defs = str_def ch_def bslash_def

lemmas router_defs = use_def listen_def stop_def navigate_def load_def loadCurrent_def
  dispatch_def
  getCurrent_def obtainRequestProcessors_def extractRequest_def parsePath_def parseQuery_def
  paramsArr_def
  merge_options_def DEF_OPTIONS_def DEF_ROUTE_def initial_def clearSlashes_def
  decodeURIComponent_def decodeURI_def ToString_def put_property_def hexval_def prepend_def
  code_units_def is_line_terminator_def Let_def

lemmas path_defs = stringToPathExp_def tokensToPathExp_def route_source_def token_route_def
  endsWithSlash_def flags_of_def no_options_def parse_def PATH_STRIPPER_at_def parameter_def
  escaped_pair_def
  paren_group_def opt_suffix_def no_groups_def or_else_def escapeGroup_def escapeString_def
  is_word_def capturing_groups_def opens_capture_def

lemma two_defaults_eq:
  "two_defaults =
     (initial home ())\<lparr>handlers := [\<lparr>pathExp = DEF_ROUTE, activate = VFun 1\<rparr>,
                                    \<lparr>pathExp = DEF_ROUTE, activate = VFun 2\<rparr>]\<rparr>"
  by (simp add: two_defaults_def use_def initial_def)

lemma started_eq:
  "started =
     two_defaults\<lparr>options := Defined \<lparr>mode = Some (str ''hash''), root = Some (str ''/''),
                                       silent = Some True\<rparr>,
                  listeners := {Hashchange}\<rparr>"
  by (simp add: started_def two_defaults_eq listen_def silently_def merge_options_def
      DEF_OPTIONS_def initial_def string_defs)

lemma started_history_eq:
  "started_history =
     two_defaults\<lparr>options := Defined \<lparr>mode = Some (str ''history''), root = Some (str ''/''),
                                       silent = Some True\<rparr>,
                  listeners := {Popstate}\<rparr>"
  by (simp add: started_history_def two_defaults_eq listen_def merge_options_def
      DEF_OPTIONS_def initial_def string_defs)

lemma loaded_a_eq:
  "loaded_a =
     started\<lparr>loadedPath := Defined (str ''a''),
       location := \<lparr>href = str ''http://example.com/#a'', pathname = str ''/'', search = []\<rparr>,
       calls := [\<lparr>called = 1,
                   received = \<lparr>path = str ''a'', query = [([], str ''undefined'')],
                                queryString = [], params = [], oldPath = Undefined\<rparr>,
                   outcome = Inr ReturnedOther\<rparr>,
                 \<lparr>called = 2,
                   received = \<lparr>path = str ''a'', query = [([], str ''undefined'')],
                                queryString = [], params = [], oldPath = Undefined\<rparr>,
                   outcome = Inr ReturnedOther\<rparr>]\<rparr>"
  by (simp add: loaded_a_def started_eq two_defaults_eq router_defs sample_defs string_defs
      always_continue_def)

lemma failed_start_eq:
  "failed_start =
     (initial home ())\<lparr>options := Defined \<lparr>mode = Some (str ''x''), root = Some (str ''/''),
                                            silent = Some False\<rparr>\<rparr>"
  by (simp add: failed_start_def listen_def unknown_mode_def merge_options_def DEF_OPTIONS_def
      initial_def string_defs)

lemma with_x_eq:
  "with_x =
     (initial home ())\<lparr>handlers :=
        [\<lparr>pathExp = \<lparr>source = str ''^x(?:'' @ [bslash] @ str ''/(?=$))?$'', flags = str ''i'',
                      keys = Some []\<rparr>,
          activate = VFun 0\<rparr>]\<rparr>"
  by (simp add: with_x_def router_defs sample_defs string_defs path_defs)

lemma one_param_eq:
  "one_param =
     (initial home ())\<lparr>handlers :=
        [\<lparr>pathExp = \<lparr>source = one_parameter, flags = str ''i'',
                      keys = Some [\<lparr>name = str ''id'', prefix = [], delimiter = str ''/'',
                                    optional = False, repeat = False,
                                    pattern = str ''[^'' @ [bslash] @ str ''/]+?''\<rparr>]\<rparr>,
          activate = VFun 1\<rparr>]\<rparr>"
  by (simp add: one_param_def router_defs sample_defs string_defs path_defs)

lemma url_parse_samples:
  "url_parse sample_platform (str ''a?x=%'') = Some (str ''/a'', str ''?x=%'')"
  "url_parse sample_platform (str ''%'') = Some (str ''/%'', [])"
  by (simp_all add: sample_defs string_defs)

lemma bad_query_sample: "bad_query (str ''?x=%'')"
  by (simp add: bad_query_def undecodable_def router_defs string_defs)

lemma bad_param_sample:
  "\<exists>h \<in> set (handlers one_param). bad_param sample_platform (clearSlashes (str ''/%'')) h"
  by (simp add: one_param_eq bad_param_def undecodable_def router_defs sample_defs string_defs)

lemma listening_started: "listening started"
  by (simp add: started_eq two_defaults_eq listening_def initial_def string_defs)

lemma listening_started_history: "listening started_history"
  by (simp add: started_history_eq two_defaults_eq listening_def initial_def string_defs)

lemma push_state_started_history:
  "push_state sample_platform (Some (str ''/'')) (location started_history) =
     Some \<lparr>href = str ''http://example.com/'', pathname = str ''/'', search = []\<rparr>"
  by (simp add: started_history_eq two_defaults_eq initial_def sample_defs string_defs)

lemma stop_started: "fst (stop sample_platform started) = Inr ()"
  by (simp add: started_eq two_defaults_eq stop_def initial_def string_defs)

lemma obtainRequestProcessors_none:
  "obtainRequestProcessors sample_platform (str ''a'') (initial home ()) = Inr []"
  by (simp add: router_defs sample_defs string_defs)

lemma obtainRequestProcessors_two_defaults:
  "obtainRequestProcessors sample_platform (str ''a'') two_defaults =
     Inr [\<lparr>request = \<lparr>path = str ''a'', query = [([], str ''undefined'')], queryString = [],
                       params = [], oldPath = Undefined\<rparr>, processor_activate = VFun 1\<rparr>,
          \<lparr>request = \<lparr>path = str ''a'', query = [([], str ''undefined'')], queryString = [],
                       params = [], oldPath = Undefined\<rparr>, processor_activate = VFun 2\<rparr>]"
  by (simp add: two_defaults_eq router_defs sample_defs string_defs)

lemma load_veto: "fst (load sample_platform veto_first (str ''a'') two_defaults) = Inr False"
  by (simp add: two_defaults_eq router_defs sample_defs string_defs veto_first_def)

lemma getCurrent_loaded_a: "getCurrent loaded_a = Inr (str ''a'')"
  by (simp add: loaded_a_eq started_eq two_defaults_eq router_defs initial_def string_defs)

lemma loadCurrent_started:
  "fst (loadCurrent sample_platform always_continue OnRouter started) = Inr True \<and>
   getCurrent (snd (loadCurrent sample_platform always_continue OnRouter started)) =
     getCurrent started \<and>
   map called (calls (snd (loadCurrent sample_platform always_continue OnRouter started))) =
     [1, 2]"
  by (simp add: started_eq two_defaults_eq router_defs sample_defs string_defs
      always_continue_def)

subsection \<open>Which exceptions the helpers throw\<close>

lemma Decode_error: "Decode rs s = Inl e \<Longrightarrow> e = URIError"
proof (induction rs s arbitrary: e rule: Decode.induct)
  case (1 reservedSet)
  then show ?case by simp
next
  case (2 reservedSet c s)
  show ?case
  proof (cases "c \<noteq> ch CHR ''%''")
    case True
    with "2.prems" "2.IH"(1) show ?thesis
      by (auto simp: prepend_def split: sum.splits)
  next
    case False
    show ?thesis
    proof (cases "octet (c # s)")
      case None
      with False "2.prems" show ?thesis by simp
    next
      case (Some br)
      note oct = Some
      obtain b rest where br: "br = (b, rest)" by (cases br)
      show ?thesis
      proof (cases "b < 128")
        case True
        with False oct br "2.prems" "2.IH"(2,3) [OF _ oct br [symmetric]] show ?thesis
          by (auto simp: prepend_def split: sum.splits if_splits)
      next
        case nb: False
        show ?thesis
        proof (cases "b < 192 \<or> 248 \<le> b")
          case True
          with nb False oct br "2.prems" show ?thesis by simp
        next
          case mid: False
          show ?thesis
          proof (cases "continuation (if b < 224 then 1 else if b < 240 then 2 else 3) rest")
            case None
            with mid nb False oct br "2.prems" show ?thesis by simp
          next
            case (Some cr)
            note cont = Some
            obtain bs rest' where cr: "cr = (bs, rest')" by (cases cr)
            show ?thesis
            proof (cases "utf8_value b bs")
              case None
              with cont cr mid nb False oct br "2.prems" show ?thesis by simp
            next
              case (Some v)
              from "2.IH"(4,5) [OF _ oct br [symmetric] nb mid cont cr [symmetric] Some] False
              have ih: "\<And>e. Decode reservedSet rest' = Inl e \<Longrightarrow> e = URIError"
                by (cases "v < 65536 \<and> of_nat v \<in> set reservedSet") auto
              from Some cont cr mid nb False oct br "2.prems" ih show ?thesis
                by (auto simp: prepend_def split: sum.splits if_splits)
            qed
          qed
        qed
      qed
    qed
  qed
qed

lemma parseQuery_loop_error: "parseQuery_loop parts q = Inl e \<Longrightarrow> e = URIError"
  by (induction parts arbitrary: q)
     (auto simp: Let_def decodeURIComponent_def split: sum.splits dest: Decode_error)

lemma parseQuery_error: "parseQuery qs = Inl e \<Longrightarrow> e = URIError"
  by (auto simp: parseQuery_def dest: parseQuery_loop_error)

lemma parsePath_error: "parsePath P p = Inl e \<Longrightarrow> e = TypeError \<or> e = URIError"
  by (auto simp: parsePath_def split: option.splits sum.splits prod.splits
      dest: parseQuery_error)

lemma getCurrent_error: "getCurrent w = Inl e \<Longrightarrow> e = TypeError \<or> e = URIError"
  by (auto simp: getCurrent_def decodeURI_def
      split: nullable.splits if_splits sum.splits option.splits dest: Decode_error)

lemma InvalidMode_not_AlreadyListening: "InvalidMode m \<noteq> AlreadyListening"
  by (simp add: InvalidMode_def AlreadyListening_def str_def ch_def)

subsection \<open>Loading\<close>

lemma load_loadedPath:
  "fst (load P F p w) = Inr b \<Longrightarrow> loadedPath (snd (load P F p w)) = Defined p"
  by (auto simp: load_def split: sum.splits prod.splits)

lemma load_no_match:
  "obtainRequestProcessors P p w = Inr [] \<Longrightarrow>
     load P F p w = (Inr False, w\<lparr>loadedPath := Defined p\<rparr>)"
  by (simp add: load_def)

lemma load_no_handlers:
  assumes "handlers w = []"
  shows "fst (load P F p w) = Inl TypeError \<or> fst (load P F p w) = Inl URIError \<or>
         fst (load P F p w) = Inr False"
proof (cases "parsePath P p")
  case (Inl e)
  with parsePath_error [OF Inl] show ?thesis
    by (auto simp: load_def obtainRequestProcessors_def)
next
  case (Inr parsed)
  with assms show ?thesis
    by (simp add: load_def obtainRequestProcessors_def)
qed

lemma loadCurrent_no_handlers:
  assumes "handlers w = []"
  shows "fst (loadCurrent P F OnRouter w) = Inl TypeError \<or>
         fst (loadCurrent P F OnRouter w) = Inl URIError \<or>
         fst (loadCurrent P F OnRouter w) = Inr False"
proof (cases "getCurrent w")
  case (Inl e)
  with getCurrent_error [OF Inl] show ?thesis by (auto simp: loadCurrent_def)
next
  case (Inr cur)
  show ?thesis
  proof (cases "Defined cur = loadedPath w")
    case True
    with Inr show ?thesis by (simp add: loadCurrent_def)
  next
    case False
    with Inr load_no_handlers [OF assms, of P F cur] show ?thesis
      by (simp add: loadCurrent_def)
  qed
qed

lemma loadCurrent_skip:
  "getCurrent w = Inr p \<Longrightarrow> loadedPath w = Defined p \<Longrightarrow>
     loadCurrent P F OnRouter w = (Inr False, w)"
  by (simp add: loadCurrent_def)

text \<open>
  As the listener of an event, \<^verbatim>\<open>_loadCurrent\<close> throws before it does anything: an event
  for which it is registered ends in a \<^verbatim>\<open>TypeError\<close> and changes nothing, in every state.
\<close>

lemma dispatch_TypeError:
  "e \<in> listeners w \<Longrightarrow> dispatch P F e w = (Some (Inl TypeError), w)"
  by (simp add: dispatch_def loadCurrent_def)

text \<open>
  The trace of a run of the loop of \<^verbatim>\<open>_load\<close> that returns: the new calls are those of
  a prefix of the request processors, in order; only the last of them can have returned
  \<^verbatim>\<open>false\<close>; the count is the number of calls that did not.
\<close>

lemma load_loop_trace:
  "load_loop F rps count w = (Inr n, w') \<Longrightarrow>
     \<exists>new. calls w' = calls w @ new \<and>
       map (VFun \<circ> called) new = map processor_activate (take (length new) rps) \<and>
       length new \<le> length rps \<and>
       (\<forall>i < length new. outcome (new ! i) = Inr ReturnedFalse \<longrightarrow> Suc i = length new) \<and>
       (\<forall>c \<in> set new. outcome c = Inr ReturnedFalse \<or> outcome c = Inr ReturnedOther) \<and>
       n = count + length (filter (\<lambda>c. outcome c = Inr ReturnedOther) new) \<and>
       ((\<forall>c \<in> set new. outcome c \<noteq> Inr ReturnedFalse) \<longrightarrow> length new = length rps)"
proof (induction rps arbitrary: count w)
  case Nil
  then show ?case by simp
next
  case (Cons rp rps)
  let ?req = "(request rp)\<lparr>oldPath := loadedPath w\<rparr>"
  from Cons.prems obtain f where f: "processor_activate rp = VFun f"
    by (cases "processor_activate rp") (auto simp: Let_def)
  obtain res w1 where call: "F f ?req w = (res, w1)" by (cases "F f ?req w")
  let ?entry = "\<lparr>called = f, received = ?req, outcome = res\<rparr>"
  let ?w2 = "w1\<lparr>calls := calls w @ [?entry]\<rparr>"
  from Cons.prems f call obtain nxt where res: "res = Inr nxt"
    by (cases res) (auto simp: Let_def)
  show ?case
  proof (cases "nxt = ReturnedFalse")
    case True
    with Cons.prems f call res have "n = count" "w' = ?w2" by (auto simp: Let_def)
    then have "calls w' = calls w @ [?entry]" by simp
    with True res f \<open>n = count\<close> show ?thesis
      by (intro exI [of _ "[?entry]"]) auto
  next
    case False
    then have other: "nxt = ReturnedOther" by (cases nxt) auto
    with Cons.prems f call res have rec: "load_loop F rps (Suc count) ?w2 = (Inr n, w')"
      by (auto simp: Let_def)
    from Cons.IH [OF rec] obtain new where
      c: "calls w' = calls ?w2 @ new" and
      m: "map (VFun \<circ> called) new = map processor_activate (take (length new) rps)" and
      l: "length new \<le> length rps" and
      lastf: "\<forall>i < length new. outcome (new ! i) = Inr ReturnedFalse \<longrightarrow> Suc i = length new" and
      outs: "\<forall>c \<in> set new. outcome c = Inr ReturnedFalse \<or> outcome c = Inr ReturnedOther" and
      cnt: "n = Suc count + length (filter (\<lambda>c. outcome c = Inr ReturnedOther) new)" and
      full: "(\<forall>c \<in> set new. outcome c \<noteq> Inr ReturnedFalse) \<longrightarrow> length new = length rps"
      by blast
    let ?new = "?entry # new"
    have 1: "calls w' = calls w @ ?new" using c by simp
    have 2: "map (VFun \<circ> called) ?new = map processor_activate (take (length ?new) (rp # rps))"
      using m f by simp
    have 3: "length ?new \<le> length (rp # rps)" using l by simp
    have 4: "\<forall>i < length ?new. outcome (?new ! i) = Inr ReturnedFalse \<longrightarrow> Suc i = length ?new"
    proof (intro allI impI)
      fix i assume i: "i < length ?new" and o: "outcome (?new ! i) = Inr ReturnedFalse"
      show "Suc i = length ?new"
      proof (cases i)
        case 0
        with o res other show ?thesis by simp
      next
        case (Suc j)
        with i o lastf show ?thesis by simp
      qed
    qed
    have 5: "\<forall>c \<in> set ?new. outcome c = Inr ReturnedFalse \<or> outcome c = Inr ReturnedOther"
      using outs res other by simp
    have 6: "n = count + length (filter (\<lambda>c. outcome c = Inr ReturnedOther) ?new)"
      using cnt res other by simp
    have 7: "(\<forall>c \<in> set ?new. outcome c \<noteq> Inr ReturnedFalse) \<longrightarrow> length ?new = length (rp # rps)"
      using full by simp
    from 1 2 3 4 5 6 7 show ?thesis by blast
  qed
qed

text \<open>
  The request processors of a load are made from the handlers whose pattern matches
  the path, in the order of \<^verbatim>\<open>_handlers\<close>, that is, of registration.
\<close>

lemma obtainRequestProcessors_loop_activate:
  "obtainRequestProcessors_loop P p parsed_path hs = Inr rps \<Longrightarrow>
     map processor_activate rps =
       map activate
         (filter (\<lambda>h. regexp_exec P (source (pathExp h)) (flags (pathExp h)) parsed_path \<noteq> None)
            hs)"
  by (induction hs arbitrary: rps) (auto split: if_splits sum.splits)

text \<open>
  The short-circuit of \<^verbatim>\<open>_load\<close>, for every state, path and callbacks. A load that
  returns calls the matching handlers in the order of their registration and stops at the
  first that returns \<^verbatim>\<open>false\<close>: of its calls only the last can have returned \<^verbatim>\<open>false\<close>,
  so no later matching handler is invoked; if none returned \<^verbatim>\<open>false\<close>, every matching
  handler was called. The handler that returned \<^verbatim>\<open>false\<close> is not counted: the load
  returns \<^verbatim>\<open>true\<close> exactly when some handler it called returned something else.
\<close>

lemma load_chain_stops_at_false:
  assumes "parsePath P p = Inr parsed" and "fst (load P F p w) = Inr b"
  shows "\<exists>new. calls (snd (load P F p w)) = calls w @ new \<and>
           map (VFun \<circ> called) new =
             take (length new)
               (map activate
                 (filter (\<lambda>h. regexp_exec P (source (pathExp h)) (flags (pathExp h))
                                 (path parsed) \<noteq> None)
                    (handlers w))) \<and>
           (\<forall>i < length new. outcome (new ! i) = Inr ReturnedFalse \<longrightarrow> Suc i = length new) \<and>
           (b \<longleftrightarrow> (\<exists>c \<in> set new. outcome c \<noteq> Inr ReturnedFalse)) \<and>
           ((\<forall>c \<in> set new. outcome c \<noteq> Inr ReturnedFalse) \<longrightarrow>
              length new =
                length (filter (\<lambda>h. regexp_exec P (source (pathExp h)) (flags (pathExp h))
                                        (path parsed) \<noteq> None)
                          (handlers w)))"
proof -
  let ?matching =
    "filter (\<lambda>h. regexp_exec P (source (pathExp h)) (flags (pathExp h)) (path parsed) \<noteq> None)
       (handlers w)"
  from assms obtain rps where
    rps: "obtainRequestProcessors_loop P p (path parsed) (handlers w) = Inr rps"
    by (cases "obtainRequestProcessors_loop P p (path parsed) (handlers w)")
       (auto simp: load_def obtainRequestProcessors_def)
  with assms(1) have orp: "obtainRequestProcessors P p w = Inr rps"
    by (simp add: obtainRequestProcessors_def)
  from obtainRequestProcessors_loop_activate [OF rps]
  have link: "map processor_activate rps = map activate ?matching" .
  then have "length (map processor_activate rps) = length (map activate ?matching)" by simp
  then have len: "length rps = length ?matching" by simp
  obtain r w1 where loop: "load_loop F rps 0 w = (r, w1)" by (cases "load_loop F rps 0 w")
  with orp assms(2) obtain n where r: "r = Inr n" by (cases r) (auto simp: load_def)
  from loop r orp assms(2) have b: "b = (0 < n)"
    and w': "snd (load P F p w) = w1\<lparr>loadedPath := Defined p\<rparr>"
    by (auto simp: load_def)
  from load_loop_trace [OF loop [unfolded r]] obtain new where
      c: "calls w1 = calls w @ new" and
      m: "map (VFun \<circ> called) new = map processor_activate (take (length new) rps)" and
      lastf: "\<forall>i < length new. outcome (new ! i) = Inr ReturnedFalse \<longrightarrow> Suc i = length new" and
      outs: "\<forall>c \<in> set new. outcome c = Inr ReturnedFalse \<or> outcome c = Inr ReturnedOther" and
      cnt: "n = 0 + length (filter (\<lambda>c. outcome c = Inr ReturnedOther) new)" and
      full: "(\<forall>c \<in> set new. outcome c \<noteq> Inr ReturnedFalse) \<longrightarrow> length new = length rps"
    by blast
  have "map processor_activate (take (length new) rps) =
          take (length new) (map processor_activate rps)"
    by (simp only: take_map)
  with m link have m': "map (VFun \<circ> called) new = take (length new) (map activate ?matching)"
    by (simp only:)
  have "(0 < n) = (\<exists>c \<in> set new. outcome c = Inr ReturnedOther)"
    using cnt by (auto simp: filter_empty_conv)
  also have "\<dots> = (\<exists>c \<in> set new. outcome c \<noteq> Inr ReturnedFalse)"
  proof
    assume "\<exists>c \<in> set new. outcome c = Inr ReturnedOther"
    then obtain c where c: "c \<in> set new" and "outcome c = Inr ReturnedOther" by blast
    then have "outcome c \<noteq> Inr ReturnedFalse" by simp
    with c show "\<exists>c \<in> set new. outcome c \<noteq> Inr ReturnedFalse" by blast
  next
    assume "\<exists>c \<in> set new. outcome c \<noteq> Inr ReturnedFalse"
    then obtain c where c: "c \<in> set new" and "outcome c \<noteq> Inr ReturnedFalse" by blast
    with outs have "outcome c = Inr ReturnedOther" by blast
    with c show "\<exists>c \<in> set new. outcome c = Inr ReturnedOther" by blast
  qed
  finally have bb: "b \<longleftrightarrow> (\<exists>c \<in> set new. outcome c \<noteq> Inr ReturnedFalse)" using b by simp
  have 1: "calls (snd (load P F p w)) = calls w @ new" using c w' by simp
  have 5: "(\<forall>c \<in> set new. outcome c \<noteq> Inr ReturnedFalse) \<longrightarrow> length new = length ?matching"
    using full len by simp
  from 1 m' lastf bb 5 show ?thesis by blast
qed

text \<open>
  C1, on the code. \<^verbatim>\<open>Router.use(f1).use(f2)\<close> registers two handlers that match every
  path, and \<^verbatim>\<open>f1\<close> returns \<^verbatim>\<open>false\<close>. The load of \<^verbatim>\<open>a\<close> calls \<^verbatim>\<open>f1\<close> and never \<^verbatim>\<open>f2\<close>;
  and it returns \<^verbatim>\<open>false\<close>, although a handler matched the path and was executed (the
  comment of \<^verbatim>\<open>_load\<close> has ``true if the fragment matched some handler''): the loop
  leaves at \<^verbatim>\<open>break\<close> before it counts the handler.
\<close>

theorem load_false_though_handler_ran:
  "fst (load sample_platform veto_first (str ''a'') two_defaults) = Inr False \<and>
   map called (calls (snd (load sample_platform veto_first (str ''a'') two_defaults))) = [1]"
  by (simp add: two_defaults_eq router_defs sample_defs string_defs veto_first_def)

subsection \<open>Loading a path that is already loaded\<close>

text \<open>
  Every load calls the handler of its first request processor, whatever the loaded path
  is: \<^verbatim>\<open>_load\<close> does not look at \<^verbatim>\<open>_loadedPath\<close> but to pass it on as \<^verbatim>\<open>oldPath\<close>.
\<close>

lemma load_loop_calls:
  "\<exists>new. calls (snd (load_loop F rps count w)) = calls w @ new"
proof (induction rps arbitrary: count w)
  case Nil
  show ?case by simp
next
  case (Cons rp rps)
  let ?req = "(request rp)\<lparr>oldPath := loadedPath w\<rparr>"
  show ?case
  proof (cases "processor_activate rp")
    case (VFun f)
    obtain res w1 where call: "F f ?req w = (res, w1)" by (cases "F f ?req w")
    let ?entry = "\<lparr>called = f, received = ?req, outcome = res\<rparr>"
    let ?w2 = "w1\<lparr>calls := calls w @ [?entry]\<rparr>"
    from Cons.IH [of "Suc count" ?w2] obtain new where
      "calls (snd (load_loop F rps (Suc count) ?w2)) = calls w @ ?entry # new" by auto
    with VFun call show ?thesis
      by (cases res) (auto simp: Let_def)
  qed (simp_all add: Let_def)
qed

lemma load_loop_first_call:
  assumes "processor_activate rp = VFun f"
  shows "\<exists>c cs. calls (snd (load_loop F (rp # rps) count w)) = calls w @ c # cs \<and> called c = f"
proof -
  let ?req = "(request rp)\<lparr>oldPath := loadedPath w\<rparr>"
  obtain res w1 where call: "F f ?req w = (res, w1)" by (cases "F f ?req w")
  let ?entry = "\<lparr>called = f, received = ?req, outcome = res\<rparr>"
  let ?w2 = "w1\<lparr>calls := calls w @ [?entry]\<rparr>"
  from load_loop_calls [of F rps "Suc count" ?w2] obtain new where
    "calls (snd (load_loop F rps (Suc count) ?w2)) = calls w @ ?entry # new" by auto
  with assms call have "\<exists>cs. calls (snd (load_loop F (rp # rps) count w)) = calls w @ ?entry # cs"
    by (cases res) (auto simp: Let_def)
  then show ?thesis by force
qed

lemma load_first_call:
  assumes "obtainRequestProcessors P p w = Inr (rp # rps)" and "processor_activate rp = VFun f"
  shows "\<exists>c cs. calls (snd (load P F p w)) = calls w @ c # cs \<and> called c = f"
proof -
  obtain r w1 where loop: "load_loop F (rp # rps) 0 w = (r, w1)"
    by (cases "load_loop F (rp # rps) 0 w")
  with assms(1) have "calls (snd (load P F p w)) = calls w1"
    by (cases r) (simp_all add: load_def)
  with load_loop_first_call [OF assms(2), of F rps 0 w] loop show ?thesis by simp
qed

lemma navigate_first_call:
  assumes "options w = Defined opts"
    and "mode opts = Some (str ''history'') \<longrightarrow>
           push_state P (Some (ToString (root opts) @ clearSlashes q)) (location w) \<noteq> None"
    and "obtainRequestProcessors P (clearSlashes q) w = Inr (rp # rps)"
    and "processor_activate rp = VFun f"
  shows "\<exists>c cs. calls (snd (navigate P F q w)) = calls w @ c # cs \<and> called c = f"
proof -
  have "\<exists>loc. navigate P F q w = load P F (clearSlashes q) (w\<lparr>location := loc\<rparr>)"
  proof (cases "mode opts = Some (str ''history'')")
    case True
    with assms(2) obtain loc where
      "push_state P (Some (ToString (root opts) @ clearSlashes q)) (location w) = Some loc"
      by auto
    with True assms(1) show ?thesis by (auto simp: navigate_def Let_def)
  next
    case False
    show ?thesis
    proof (cases "mode opts = Some (str ''hash'')")
      case True
      with False assms(1) show ?thesis by (auto simp: navigate_def Let_def)
    next
      case nohash: False
      with False assms(1) have "navigate P F q w = load P F (clearSlashes q) w"
        by (simp add: navigate_def Let_def)
      then have "navigate P F q w = load P F (clearSlashes q) (w\<lparr>location := location w\<rparr>)"
        by simp
      then show ?thesis by blast
    qed
  qed
  then obtain loc where nav: "navigate P F q w = load P F (clearSlashes q) (w\<lparr>location := loc\<rparr>)"
    by blast
  from assms(3) have
    "obtainRequestProcessors P (clearSlashes q) (w\<lparr>location := loc\<rparr>) = Inr (rp # rps)"
    by (simp add: obtainRequestProcessors_def split: sum.splits)
  from load_first_call [OF this assms(4), of F] nav show ?thesis by simp
qed

lemma obtainRequestProcessors_loaded_a:
  "obtainRequestProcessors sample_platform (clearSlashes (str ''a'')) loaded_a =
     Inr [\<lparr>request = \<lparr>path = str ''a'', query = [([], str ''undefined'')], queryString = [],
                       params = [], oldPath = Undefined\<rparr>, processor_activate = VFun 1\<rparr>,
          \<lparr>request = \<lparr>path = str ''a'', query = [([], str ''undefined'')], queryString = [],
                       params = [], oldPath = Undefined\<rparr>, processor_activate = VFun 2\<rparr>]"
  by (simp add: loaded_a_eq started_eq two_defaults_eq router_defs sample_defs string_defs)

lemma options_loaded_a:
  "options loaded_a =
     Defined \<lparr>mode = Some (str ''hash''), root = Some (str ''/''), silent = Some True\<rparr>"
  by (simp add: loaded_a_eq started_eq)

text \<open>
  C2, as the code has it. The comparison with the loaded path is made in
  \<^verbatim>\<open>_loadCurrent\<close> and nowhere else. When \<^verbatim>\<open>_loadCurrent\<close> runs on the router, as \<^verbatim>\<open>listen\<close>
  calls it, and the current path is the loaded path, it returns \<^verbatim>\<open>false\<close>, calls no
  handler and changes nothing; hence a second such call after one that returned, with
  the current path unchanged, does nothing. \<^verbatim>\<open>navigate\<close> makes no comparison: whenever
  it has written the location it runs \<^verbatim>\<open>_load\<close>, and the first matching handler is
  called, also when the path is the loaded path.
\<close>

theorem loaded_path_compared_by_loadCurrent_only:
  "(getCurrent w = Inr p \<and> loadedPath w = Defined p \<longrightarrow>
      loadCurrent P F OnRouter w = (Inr False, w)) \<and>
   (fst (loadCurrent P F OnRouter w) = Inr b \<and>
    getCurrent (snd (loadCurrent P F OnRouter w)) = getCurrent w \<longrightarrow>
      loadCurrent P F OnRouter (snd (loadCurrent P F OnRouter w)) =
        (Inr False, snd (loadCurrent P F OnRouter w))) \<and>
   (options w = Defined opts \<and>
    (mode opts = Some (str ''history'') \<longrightarrow>
       push_state P (Some (ToString (root opts) @ clearSlashes q)) (location w) \<noteq> None) \<and>
    obtainRequestProcessors P (clearSlashes q) w = Inr (rp # rps) \<and>
    processor_activate rp = VFun f \<longrightarrow>
      (\<exists>c cs. calls (snd (navigate P F q w)) = calls w @ c # cs \<and> called c = f))"
proof (intro conjI impI)
  assume "getCurrent w = Inr p \<and> loadedPath w = Defined p"
  then show "loadCurrent P F OnRouter w = (Inr False, w)" by (simp add: loadCurrent_skip)
next
  assume a: "fst (loadCurrent P F OnRouter w) = Inr b \<and>
             getCurrent (snd (loadCurrent P F OnRouter w)) = getCurrent w"
  let ?w' = "snd (loadCurrent P F OnRouter w)"
  from a obtain cur where cur: "getCurrent w = Inr cur"
    by (cases "getCurrent w") (auto simp: loadCurrent_def)
  have "loadedPath ?w' = Defined cur"
  proof (cases "Defined cur = loadedPath w")
    case True
    with cur show ?thesis by (simp add: loadCurrent_def)
  next
    case False
    with cur a have "fst (load P F cur w) = Inr b" and "?w' = snd (load P F cur w)"
      by (simp_all add: loadCurrent_def)
    then show ?thesis by (simp add: load_loadedPath)
  qed
  moreover from a cur have "getCurrent ?w' = Inr cur" by simp
  ultimately show "loadCurrent P F OnRouter ?w' = (Inr False, ?w')"
    by (rule loadCurrent_skip [rotated])
next
  assume "options w = Defined opts \<and>
    (mode opts = Some (str ''history'') \<longrightarrow>
       push_state P (Some (ToString (root opts) @ clearSlashes q)) (location w) \<noteq> None) \<and>
    obtainRequestProcessors P (clearSlashes q) w = Inr (rp # rps) \<and>
    processor_activate rp = VFun f"
  then show "\<exists>c cs. calls (snd (navigate P F q w)) = calls w @ c # cs \<and> called c = f"
    using navigate_first_call [of w opts P q rp rps f F] by blast
qed

text \<open>
  The theorem at three runs: \<^verbatim>\<open>_loadCurrent\<close> on the router after \<^verbatim>\<open>navigate('a')\<close>, with
  the location at \<^verbatim>\<open>#a\<close>, does nothing; \<^verbatim>\<open>_loadCurrent\<close> on the router twice after a
  silent start calls the handlers the first time only; \<^verbatim>\<open>navigate('a')\<close> after
  \<^verbatim>\<open>navigate('a')\<close> calls the first handler again.
\<close>

theorem loaded_path_compared_by_loadCurrent_only_witness:
  "getCurrent loaded_a = Inr (str ''a'') \<and> loadedPath loaded_a = Defined (str ''a'') \<and>
   loadCurrent sample_platform always_continue OnRouter loaded_a = (Inr False, loaded_a) \<and>
   fst (loadCurrent sample_platform always_continue OnRouter started) = Inr True \<and>
   getCurrent (snd (loadCurrent sample_platform always_continue OnRouter started)) =
     getCurrent started \<and>
   loadCurrent sample_platform always_continue OnRouter
       (snd (loadCurrent sample_platform always_continue OnRouter started)) =
     (Inr False, snd (loadCurrent sample_platform always_continue OnRouter started)) \<and>
   (\<exists>c cs. calls (snd (navigate sample_platform always_continue (str ''a'') loaded_a)) =
             calls loaded_a @ c # cs \<and> called c = 1)"
proof -
  have hash: "str ''hash'' \<noteq> str ''history''" by (simp add: string_defs)
  have la: "loadedPath loaded_a = Defined (str ''a'')" by (simp add: loaded_a_eq)
  note at_loaded =
    loaded_path_compared_by_loadCurrent_only
      [where w = loaded_a and p = "str ''a''" and P = sample_platform and F = always_continue
         and b = True and q = "str ''a''" and f = 1
         and opts = "\<lparr>mode = Some (str ''hash''), root = Some (str ''/''), silent = Some True\<rparr>"
         and rp = "\<lparr>request = \<lparr>path = str ''a'', query = [([], str ''undefined'')],
                                 queryString = [], params = [], oldPath = Undefined\<rparr>,
                     processor_activate = VFun 1\<rparr>"
         and rps = "[\<lparr>request = \<lparr>path = str ''a'', query = [([], str ''undefined'')],
                                   queryString = [], params = [], oldPath = Undefined\<rparr>,
                       processor_activate = VFun 2\<rparr>]"]
  note at_started =
    loaded_path_compared_by_loadCurrent_only
      [where w = started and P = sample_platform and F = always_continue and b = True]
  from at_loaded getCurrent_loaded_a la
  have 1: "loadCurrent sample_platform always_continue OnRouter loaded_a = (Inr False, loaded_a)"
    by blast
  from at_started loadCurrent_started
  have 2: "loadCurrent sample_platform always_continue OnRouter
             (snd (loadCurrent sample_platform always_continue OnRouter started)) =
           (Inr False, snd (loadCurrent sample_platform always_continue OnRouter started))"
    by blast
  from at_loaded options_loaded_a obtainRequestProcessors_loaded_a hash
  have 3: "\<exists>c cs. calls (snd (navigate sample_platform always_continue (str ''a'') loaded_a)) =
                    calls loaded_a @ c # cs \<and> called c = 1"
    by simp
  from 1 2 3 getCurrent_loaded_a la loadCurrent_started show ?thesis by blast
qed

text \<open>
  Against C2 as stated, at both entry points, after \<^verbatim>\<open>Router.use(f1).use(f2)\<close>,
  \<^verbatim>\<open>Router.listen({silent: true})\<close> and \<^verbatim>\<open>Router.navigate('a')\<close>, when the loaded path and
  the current path are \<^verbatim>\<open>a\<close>. A second \<^verbatim>\<open>navigate('a')\<close> calls both handlers again and
  returns \<^verbatim>\<open>true\<close>. A \<^verbatim>\<open>hashchange\<close> event does not return \<^verbatim>\<open>false\<close>: the listener throws
  a \<^verbatim>\<open>TypeError\<close>; and so does the first \<^verbatim>\<open>hashchange\<close> after the silent start, when
  nothing is loaded yet, so that no event calls a handler, first or second.
\<close>

theorem loaded_path_not_skipped:
  "loadedPath loaded_a = Defined (str ''a'') \<and> getCurrent loaded_a = Inr (str ''a'') \<and>
   fst (navigate sample_platform always_continue (str ''a'') loaded_a) = Inr True \<and>
   map called (calls (snd (navigate sample_platform always_continue (str ''a'') loaded_a))) =
     map called (calls loaded_a) @ [1, 2] \<and>
   Hashchange \<in> listeners loaded_a \<and>
   dispatch sample_platform always_continue Hashchange loaded_a = (Some (Inl TypeError), loaded_a) \<and>
   Hashchange \<in> listeners started \<and> loadedPath started = Undefined \<and>
   dispatch sample_platform always_continue Hashchange started = (Some (Inl TypeError), started)"
  by (simp add: loaded_a_eq started_eq two_defaults_eq router_defs sample_defs string_defs
      always_continue_def)

text \<open>
  C9. A \<^verbatim>\<open>_load\<close> that returns leaves \<^verbatim>\<open>_loadedPath\<close> equal to its path, whatever the
  handlers did and whether or not the chain was cut short; when no handler matches it
  returns \<^verbatim>\<open>false\<close> and changes nothing but \<^verbatim>\<open>_loadedPath\<close>.
\<close>

theorem load_sets_loadedPath:
  "(fst (load P F p w) = Inr b \<longrightarrow> loadedPath (snd (load P F p w)) = Defined p) \<and>
   (obtainRequestProcessors P p w = Inr [] \<longrightarrow>
      load P F p w = (Inr False, w\<lparr>loadedPath := Defined p\<rparr>))"
  using load_loadedPath [of P F p w b] load_no_match [of P p w F] by blast

text \<open>
  The theorem at two runs: no handler registered; and two matching handlers of which
  the first returns \<^verbatim>\<open>false\<close>.
\<close>

theorem load_sets_loadedPath_witness:
  "obtainRequestProcessors sample_platform (str ''a'') (initial home ()) = Inr [] \<and>
   load sample_platform veto_first (str ''a'') (initial home ()) =
     (Inr False, (initial home ())\<lparr>loadedPath := Defined (str ''a'')\<rparr>) \<and>
   fst (load sample_platform veto_first (str ''a'') two_defaults) = Inr False \<and>
   loadedPath (snd (load sample_platform veto_first (str ''a'') two_defaults)) =
     Defined (str ''a'')"
  using load_sets_loadedPath [of sample_platform veto_first "str ''a''" "initial home ()" False]
    load_sets_loadedPath [of sample_platform veto_first "str ''a''" two_defaults False]
    obtainRequestProcessors_none load_veto
  by simp

subsection \<open>The query string\<close>

text \<open>
  C6, on the code. For the query \<^verbatim>\<open>?flag\<close>, whose key has no \<^verbatim>\<open>=value\<close> part,
  \<^verbatim>\<open>pair[1]\<close> is \<^verbatim>\<open>undefined\<close> and \<^verbatim>\<open>decodeURIComponent\<close> turns it into a string: the value
  stored for \<^verbatim>\<open>flag\<close> is the nine characters \<^verbatim>\<open>undefined\<close>.
\<close>

theorem parseQuery_key_without_value:
  "parseQuery (str ''?flag'') = Inr [(str ''flag'', str ''undefined'')]"
  by (simp add: router_defs string_defs)

lemma undecodable_URIError: "decodeURIComponent v = Inl e \<Longrightarrow> e = URIError"
  by (auto simp: decodeURIComponent_def dest: Decode_error)

lemma parseQuery_loop_fails:
  assumes "\<exists>part \<in> set parts.
      undecodable (index (js_split (ch CHR ''='') part) 0) \<or>
      undecodable (index (js_split (ch CHR ''='') part) 1)"
  shows "parseQuery_loop parts q = Inl URIError"
  using assms
proof (induction parts arbitrary: q)
  case Nil
  then show ?case by simp
next
  case (Cons part parts)
  let ?pair = "js_split (ch CHR ''='') part"
  show ?case
  proof (cases "decodeURIComponent (index ?pair 0)")
    case (Inl e)
    with undecodable_URIError [OF Inl] show ?thesis by (simp add: Let_def)
  next
    case key: (Inr k)
    show ?thesis
    proof (cases "decodeURIComponent (index ?pair 1)")
      case (Inl e)
      with key undecodable_URIError [OF Inl] show ?thesis by (simp add: Let_def)
    next
      case (Inr v)
      with key Cons.prems have "\<exists>part \<in> set parts.
          undecodable (index (js_split (ch CHR ''='') part) 0) \<or>
          undecodable (index (js_split (ch CHR ''='') part) 1)"
        by (auto simp: undecodable_def)
      from Cons.IH [OF this] key Inr show ?thesis by (simp add: Let_def)
    qed
  qed
qed

lemma bad_query_parseQuery: "bad_query qs \<Longrightarrow> parseQuery qs = Inl URIError"
  unfolding bad_query_def parseQuery_def by (rule parseQuery_loop_fails)

lemma extractRequest_loop_fails:
  "\<exists>a \<in> set args. a \<noteq> None \<and> undecodable a \<Longrightarrow>
     \<exists>e. extractRequest_loop args ks i ps = Inl e"
proof (induction args arbitrary: i ps)
  case Nil
  then show ?case by simp
next
  case (Cons arg args)
  show ?case
  proof (cases arg)
    case None
    with Cons.prems have "\<exists>a \<in> set args. a \<noteq> None \<and> undecodable a" by auto
    from Cons.IH [OF this] None show ?thesis by simp
  next
    case (Some a)
    show ?thesis
    proof (cases "undecodable (Some a)")
      case True
      with Some show ?thesis
        by (auto simp: undecodable_def split: option.splits)
    next
      case False
      with Some Cons.prems have "\<exists>a \<in> set args. a \<noteq> None \<and> undecodable a" by auto
      from Cons.IH [OF this] Some show ?thesis
        by (auto split: option.splits sum.splits)
    qed
  qed
qed

lemma obtainRequestProcessors_loop_fails:
  assumes "parsePath P p = Inr parsed"
    and "\<exists>h \<in> set hs. bad_param P (path parsed) h"
  shows "\<exists>e. obtainRequestProcessors_loop P p (path parsed) hs = Inl e"
  using assms(2)
proof (induction hs)
  case Nil
  then show ?case by simp
next
  case (Cons h hs)
  show ?case
  proof (cases "bad_param P (path parsed) h")
    case True
    then obtain args where
      ex: "regexp_exec P (source (pathExp h)) (flags (pathExp h)) (path parsed) = Some args"
      and bad: "\<exists>a \<in> set args. a \<noteq> None \<and> undecodable a"
      by (auto simp: bad_param_def split: option.splits)
    from extractRequest_loop_fails [OF bad] obtain e where
      "extractRequest_loop args (keys (pathExp h)) 0 [] = Inl e" by blast
    with ex assms(1) have "extractRequest P p (Some (pathExp h)) = Inl e"
      by (simp add: extractRequest_def)
    with ex show ?thesis by simp
  next
    case False
    with Cons.prems have "\<exists>h \<in> set hs. bad_param P (path parsed) h" by auto
    from Cons.IH [OF this] show ?thesis
      by (auto split: sum.splits)
  qed
qed

text \<open>
  C5, as the code has it. Nothing catches the \<^verbatim>\<open>URIError\<close> of \<^verbatim>\<open>decodeURIComponent\<close>. When
  a key or a value of the query of the fragment cannot be decoded, \<^verbatim>\<open>_load\<close> throws
  \<^verbatim>\<open>URIError\<close>; when a parameter captured by a registered handler cannot be decoded,
  \<^verbatim>\<open>_load\<close> throws; in both cases no handler has been called and nothing has changed.
\<close>

theorem decode_failure_aborts_load:
  assumes "url_parse P p = Some (pn, qs)"
  shows "(bad_query qs \<longrightarrow> load P F p w = (Inl URIError, w)) \<and>
         ((\<exists>h \<in> set (handlers w). bad_param P (clearSlashes pn) h) \<longrightarrow>
            (\<exists>e. load P F p w = (Inl e, w)))"
proof (intro conjI impI)
  assume "bad_query qs"
  with assms have "parsePath P p = Inl URIError"
    by (simp add: parsePath_def bad_query_parseQuery)
  then show "load P F p w = (Inl URIError, w)"
    by (simp add: load_def obtainRequestProcessors_def)
next
  assume bad: "\<exists>h \<in> set (handlers w). bad_param P (clearSlashes pn) h"
  show "\<exists>e. load P F p w = (Inl e, w)"
  proof (cases "parsePath P p")
    case (Inl e)
    then show ?thesis by (simp add: load_def obtainRequestProcessors_def)
  next
    case (Inr parsed)
    with assms have "path parsed = clearSlashes pn"
      by (auto simp: parsePath_def split: sum.splits)
    with bad obtainRequestProcessors_loop_fails [OF Inr, of "handlers w"] obtain e where
      "obtainRequestProcessors_loop P p (path parsed) (handlers w) = Inl e" by auto
    with Inr show ?thesis by (simp add: load_def obtainRequestProcessors_def)
  qed
qed

text \<open>
  The theorem at two runs: the fragment \<^verbatim>\<open>a?x=%\<close>, and the fragment \<^verbatim>\<open>%\<close> with the
  route \<^verbatim>\<open>:id\<close> registered.
\<close>

theorem decode_failure_aborts_load_witness:
  "url_parse sample_platform (str ''a?x=%'') = Some (str ''/a'', str ''?x=%'') \<and>
   bad_query (str ''?x=%'') \<and>
   load sample_platform always_continue (str ''a?x=%'') started = (Inl URIError, started) \<and>
   url_parse sample_platform (str ''%'') = Some (str ''/%'', []) \<and>
   (\<exists>h \<in> set (handlers one_param). bad_param sample_platform (clearSlashes (str ''/%'')) h) \<and>
   (\<exists>e. load sample_platform always_continue (str ''%'') one_param = (Inl e, one_param))"
  using decode_failure_aborts_load [OF url_parse_samples(1), where F = always_continue and w = started]
    decode_failure_aborts_load [OF url_parse_samples(2), where F = always_continue and w = one_param]
    url_parse_samples bad_query_sample bad_param_sample
  by blast

text \<open>
  Against C5 as stated (``never propagates to the caller as an exception''):
  \<^verbatim>\<open>navigate('a?x=%')\<close> on a started router throws \<^verbatim>\<open>URIError\<close> to its caller and calls
  no handler, although two handlers match every path; so does \<^verbatim>\<open>navigate('%')\<close> with
  the route \<^verbatim>\<open>:id\<close> registered.
\<close>

theorem navigate_throws_URIError:
  "fst (navigate sample_platform always_continue (str ''a?x=%'') started) = Inl URIError \<and>
   calls (snd (navigate sample_platform always_continue (str ''a?x=%'') started)) = [] \<and>
   fst (navigate sample_platform always_continue (str ''%'')
         (snd (listen sample_platform always_continue silently one_param))) = Inl URIError"
  by (simp add: started_eq two_defaults_eq one_param_eq silently_def router_defs sample_defs
      string_defs)

subsection \<open>Registration\<close>

text \<open>
  C3, on the code. With the handler of \<^verbatim>\<open>use('x', f0)\<close> registered, \<^verbatim>\<open>use('p', group)\<close>
  for the group with members \<^verbatim>\<open>a\<close> and \<^verbatim>\<open>b\<close> leaves two handlers, those of \<^verbatim>\<open>f1\<close> and
  \<^verbatim>\<open>f2\<close>, where \<^verbatim>\<open>use('p/a', f1)\<close> then \<^verbatim>\<open>use('p/b', f2)\<close> leaves three: the group
  registration gives the same two entries as the separate registrations, and drops the
  handler that was registered before.
\<close>

theorem use_group_drops_earlier_handlers:
  "map activate (handlers with_x) = [VFun 0] \<and>
   map activate
     (handlers (snd (use sample_platform (Val (VStr (str ''p''))) (Group group_ab) with_x))) =
     [VFun 1, VFun 2] \<and>
   map activate
     (handlers (snd (use sample_platform (Val (VStr (str ''p/b''))) (Val (VFun 2))
        (snd (use sample_platform (Val (VStr (str ''p/a''))) (Val (VFun 1)) with_x))))) =
     [VFun 0, VFun 1, VFun 2] \<and>
   handlers (snd (use sample_platform (Val (VStr (str ''p''))) (Group group_ab) with_x)) =
     drop 1
       (handlers (snd (use sample_platform (Val (VStr (str ''p/b''))) (Val (VFun 2))
          (snd (use sample_platform (Val (VStr (str ''p/a''))) (Val (VFun 1)) with_x)))))"
  by (simp add: with_x_eq group_ab_def RouteGroup_use_def router_defs sample_defs string_defs
      path_defs)

subsection \<open>Compiled patterns\<close>

text \<open>
  C8, on the code. For the route \<^verbatim>\<open>:id(\(a\))\<close>, \<^verbatim>\<open>_escapeGroup\<close> puts a backslash in front
  of parentheses that already have one, so the compiled pattern is
  \<^verbatim>\<open>^(\\(a\\))(?:\/(?=$))?$\<close>: it has two capturing groups, and one key.
\<close>

theorem stringToPathExp_groups_exceed_keys:
  "stringToPathExp sample_platform escaped_parens None =
     Inr \<lparr>source = str ''^('' @ [bslash, bslash] @ str ''(a'' @ [bslash, bslash]
                     @ str ''))(?:'' @ [bslash] @ str ''/(?=$))?$'',
          flags = str ''i'',
          keys = Some [\<lparr>name = str ''id'', prefix = [], delimiter = str ''/'', optional = False,
                        repeat = False,
                        pattern = [bslash, bslash] @ str ''(a'' @ [bslash, bslash] @ str '')''\<rparr>]\<rparr> \<and>
   capturing_groups (str ''^('' @ [bslash, bslash] @ str ''(a'' @ [bslash, bslash]
                       @ str ''))(?:'' @ [bslash] @ str ''/(?=$))?$'') = 2"
  by (simp add: escaped_parens_def sample_defs string_defs path_defs router_defs)

subsection \<open>Starting and stopping\<close>

lemma stop_TypeError:
  "options w = Undefined \<or> options w = Null \<Longrightarrow> stop P w = (Inl TypeError, w)"
  by (auto simp: stop_def)

lemma stop_options: "fst (stop P w) = Inr () \<Longrightarrow> options (snd (stop P w)) = Null"
  by (auto simp: stop_def Let_def split: nullable.splits if_splits option.splits)

lemma listen_after_reset:
  assumes "options w = Null \<or> options w = Undefined" and "handlers w = []"
  shows "fst (listen P F given w) \<noteq> Inl AlreadyListening"
proof -
  let ?opts = "merge_options given"
  let ?w1 = "w\<lparr>options := Defined ?opts\<rparr>"
  let ?w2 = "?w1\<lparr>listeners :=
      insert (if mode ?opts = Some (str ''history'') then Popstate else Hashchange) (listeners ?w1)\<rparr>"
  have h: "handlers ?w2 = []" using assms(2) by simp
  have lc: "fst (loadCurrent P F OnRouter ?w2) \<noteq> Inl AlreadyListening"
    using loadCurrent_no_handlers [OF h, of P F] by (auto simp: AlreadyListening_def)
  from assms(1) show ?thesis
    using lc InvalidMode_not_AlreadyListening [of "mode ?opts"]
    by (auto simp: listen_def Let_def split: if_splits)
qed

text \<open>
  What \<^verbatim>\<open>listen\<close> and \<^verbatim>\<open>navigate\<close> check: \<^verbatim>\<open>listen\<close> throws its first error exactly
  when \<^verbatim>\<open>_options\<close> is set, and leaves the state alone; with \<^verbatim>\<open>_options\<close> unset and a
  mode that is neither \<^verbatim>\<open>history\<close> nor \<^verbatim>\<open>hash\<close> it throws its second error and leaves
  the merged options in \<^verbatim>\<open>_options\<close>; \<^verbatim>\<open>navigate\<close> throws when \<^verbatim>\<open>_options\<close> is unset.
\<close>

lemma listen_options_set:
  "options w = Defined opts \<Longrightarrow> listen P F given w = (Inl AlreadyListening, w)"
  by (simp add: listen_def)

lemma listen_invalid_mode:
  assumes "options w = Undefined \<or> options w = Null"
    and "mode (merge_options given) \<noteq> Some (str ''history'')"
    and "mode (merge_options given) \<noteq> Some (str ''hash'')"
  shows "listen P F given w =
    (Inl (InvalidMode (mode (merge_options given))), w\<lparr>options := Defined (merge_options given)\<rparr>)"
  using assms by (auto simp: listen_def Let_def)

lemma navigate_options_unset:
  "options w = Undefined \<or> options w = Null \<Longrightarrow> navigate P F p w = (Inl NotListening, w)"
  by (auto simp: navigate_def)

text \<open>
  C7. On a listening router \<^verbatim>\<open>stop\<close> returns (in history mode, provided
  \<^verbatim>\<open>history.pushState\<close> does), and afterwards there are no handlers, \<^verbatim>\<open>_loadedPath\<close> is
  \<^verbatim>\<open>null\<close>, the router is idle, and \<^verbatim>\<open>listen\<close>, with any options, does not throw
  the error of a router that is already listening.
\<close>

theorem stop_resets_router:
  assumes "listening w"
    and "\<forall>opts. options w = Defined opts \<and> mode opts = Some (str ''history'')
           \<longrightarrow> push_state P (root opts) (location w) \<noteq> None"
  shows "fst (stop P w) = Inr () \<and>
         handlers (snd (stop P w)) = [] \<and>
         loadedPath (snd (stop P w)) = Null \<and>
         idle (snd (stop P w)) \<and>
         fst (listen P F given (snd (stop P w))) \<noteq> Inl AlreadyListening"
proof -
  from assms(1) obtain opts where o: "options w = Defined opts"
    and m: "(mode opts = Some (str ''history'') \<and> listeners w = {Popstate}) \<or>
            (mode opts = Some (str ''hash'') \<and> listeners w = {Hashchange})"
    by (auto simp: listening_def split: nullable.splits)
  have neq: "str ''hash'' \<noteq> str ''history''" by (simp add: str_def ch_def)
  have basic: "fst (stop P w) = Inr () \<and> handlers (snd (stop P w)) = [] \<and>
      loadedPath (snd (stop P w)) = Null \<and> options (snd (stop P w)) = Null \<and>
      listeners (snd (stop P w)) = {}"
  proof (cases "mode opts = Some (str ''history'')")
    case True
    with assms(2) o obtain loc where "push_state P (root opts) (location w) = Some loc" by auto
    with True o m neq show ?thesis by (auto simp: stop_def Let_def)
  next
    case False
    with o m show ?thesis by (auto simp: stop_def Let_def)
  qed
  then have "idle (snd (stop P w))" by (simp add: idle_def)
  moreover from basic have "fst (listen P F given (snd (stop P w))) \<noteq> Inl AlreadyListening"
    by (intro listen_after_reset) auto
  ultimately show ?thesis using basic by simp
qed

text \<open>
  The theorem at two runs: \<^verbatim>\<open>stop\<close> after a silent start in hash mode, and in history
  mode, where \<^verbatim>\<open>history.pushState\<close> returns.
\<close>

theorem stop_resets_router_witness:
  "listening started \<and>
   fst (stop sample_platform started) = Inr () \<and>
   handlers (snd (stop sample_platform started)) = [] \<and>
   loadedPath (snd (stop sample_platform started)) = Null \<and>
   idle (snd (stop sample_platform started)) \<and>
   fst (listen sample_platform veto_first silently (snd (stop sample_platform started)))
     \<noteq> Inl AlreadyListening \<and>
   listening started_history \<and>
   options started_history =
     Defined \<lparr>mode = Some (str ''history''), root = Some (str ''/''), silent = Some True\<rparr> \<and>
   push_state sample_platform (Some (str ''/'')) (location started_history) \<noteq> None \<and>
   fst (stop sample_platform started_history) = Inr () \<and>
   handlers (snd (stop sample_platform started_history)) = [] \<and>
   loadedPath (snd (stop sample_platform started_history)) = Null \<and>
   idle (snd (stop sample_platform started_history)) \<and>
   fst (listen sample_platform veto_first silently (snd (stop sample_platform started_history)))
     \<noteq> Inl AlreadyListening"
proof -
  have h: "\<forall>opts. options started = Defined opts \<and> mode opts = Some (str ''history'')
           \<longrightarrow> push_state sample_platform (root opts) (location started) \<noteq> None"
    by (simp add: started_eq two_defaults_eq initial_def string_defs)
  have o: "options started_history =
      Defined \<lparr>mode = Some (str ''history''), root = Some (str ''/''), silent = Some True\<rparr>"
    by (simp add: started_history_eq)
  have h': "\<forall>opts. options started_history = Defined opts \<and> mode opts = Some (str ''history'')
           \<longrightarrow> push_state sample_platform (root opts) (location started_history) \<noteq> None"
    using push_state_started_history by (auto simp: o)
  from stop_resets_router [OF listening_started h, of veto_first silently]
    stop_resets_router [OF listening_started_history h', of veto_first silently]
    listening_started listening_started_history o push_state_started_history
  show ?thesis by simp
qed

text \<open>
  C10. \<^verbatim>\<open>stop\<close> reads \<^verbatim>\<open>_options.mode\<close> first: when \<^verbatim>\<open>_options\<close> is \<^verbatim>\<open>undefined\<close> or
  \<^verbatim>\<open>null\<close> it throws a \<^verbatim>\<open>TypeError\<close> and changes nothing. That is the case on a router
  that was never started, and on the state a \<^verbatim>\<open>stop\<close> that returned has left.
\<close>

theorem stop_requires_options:
  "(options w = Undefined \<or> options w = Null \<longrightarrow> stop P w = (Inl TypeError, w)) \<and>
   stop P (initial loc a) = (Inl TypeError, initial loc a) \<and>
   (fst (stop P w) = Inr () \<longrightarrow> stop P (snd (stop P w)) = (Inl TypeError, snd (stop P w)))"
  using stop_TypeError [of w P] stop_TypeError [of "initial loc a" P] stop_options [of P w]
    stop_TypeError [of "snd (stop P w)" P]
  by (simp add: initial_def)

text \<open>The theorem at a fresh router, and at a second \<^verbatim>\<open>stop\<close> after a start.\<close>

theorem stop_requires_options_witness:
  "options (initial home ()) = Undefined \<and>
   stop sample_platform (initial home ()) = (Inl TypeError, initial home ()) \<and>
   fst (stop sample_platform started) = Inr () \<and>
   stop sample_platform (snd (stop sample_platform started)) =
     (Inl TypeError, snd (stop sample_platform started))"
  using stop_requires_options [of "initial home ()" sample_platform home "()"]
    stop_requires_options [of started sample_platform home "()"] stop_started
  by (simp add: initial_def)

text \<open>
  C4, on the code. \<^verbatim>\<open>listen({mode: 'x'})\<close> on a fresh router throws the error of an
  invalid mode, but only after it has stored the options: no listener is registered and
  the router is not listening, yet the next \<^verbatim>\<open>listen\<close> throws the error of a router
  that is already listening, and \<^verbatim>\<open>navigate\<close> does not throw the error of a router that
  is not listening (it loads the path and returns \<^verbatim>\<open>false\<close>).
\<close>

theorem listen_failed_start_keeps_options:
  "fst (listen sample_platform veto_first unknown_mode (initial home ())) =
     Inl (InvalidMode (Some (str ''x''))) \<and>
   listeners failed_start = {} \<and> \<not> listening failed_start \<and>
   fst (listen sample_platform veto_first silently failed_start) = Inl AlreadyListening \<and>
   fst (navigate sample_platform veto_first (str ''a'') failed_start) = Inr False"
proof -
  have 1: "fst (listen sample_platform veto_first unknown_mode (initial home ())) =
      Inl (InvalidMode (Some (str ''x'')))"
    by (simp add: listen_def unknown_mode_def merge_options_def DEF_OPTIONS_def initial_def
        string_defs)
  have 2: "listeners failed_start = {} \<and> \<not> listening failed_start"
    by (simp add: failed_start_eq initial_def listening_def string_defs)
  have 3: "fst (listen sample_platform veto_first silently failed_start) = Inl AlreadyListening"
    by (simp add: failed_start_eq listen_def)
  have 4: "fst (navigate sample_platform veto_first (str ''a'') failed_start) = Inr False"
    by (simp add: failed_start_eq router_defs sample_defs string_defs)
  from 1 2 3 4 show ?thesis by simp
qed

end
